theory Spec2Isabelle
  imports Complex_Main
begin

section \<open>The pottery rib designer: geometry core\<close>

text \<open>
  A shallow embedding of the geometry functions of the rib designer:
  \<^verbatim>\<open>getShapeModifier\<close>, \<^verbatim>\<open>smoothCurvePoints\<close>, \<^verbatim>\<open>applyEdgeAngle\<close>,
  \<^verbatim>\<open>calculateVertexPosition\<close>, \<^verbatim>\<open>createRibGeometry\<close> and the volume loop of
  \<^verbatim>\<open>updateStatistics\<close>.

  Numbers. A JavaScript Number is modelled as a mathematical \<^typ>\<open>real\<close>: \<open>+\<close>, \<open>*\<close>,
  \<open>/\<close>, \<open>Math.sqrt\<close>, \<open>Math.sin\<close>, \<open>Math.tan\<close> and \<open>Math.PI\<close> are the exact operations
  and \<^term>\<open>pi\<close>. The rounding of IEEE doubles, and the rounding to single precision when
  the vertex array is stored in a \<^verbatim>\<open>Float32BufferAttribute\<close>, are outside the model; so are
  \<open>NaN\<close> and the infinities. (At an odd multiple of 90 degrees \<^term>\<open>tan\<close> is \<open>0\<close> in HOL
  and a large finite number in JavaScript; the theorems that mention the custom angle either
  exclude such angles or hold for every value of the tangent.) Array indices that the source computes with \<open>Math.floor\<close>
  are integers (\<^typ>\<open>int\<close>); loop counters and vertex indices are \<^typ>\<open>nat\<close>.

  Strings that select a behaviour (\<open>shape\<close>, \<open>angleType\<close>, \<open>edgeThicknessApply\<close>) are
  datatypes with one constructor for each value the source compares against.
\<close>

subsection \<open>Data\<close>

datatype shape = Rectangular | Oval | Circle | Teardrop | Kidney | AsymmetricTeardrop | Custom

text \<open>The values of \<open>angleType\<close>; \<open>Asymmetric\<close> selects the per-edge profiles.\<close>

datatype angleType = Straight | Sharp | Bevel | Miter | Rounded | CustomAngle | Asymmetric

text \<open>The values of \<open>edgeThicknessApply\<close>: \<open>'all'\<close>, \<open>'shaping'\<close>, \<open>'asymmetric'\<close>.\<close>

datatype edgeApply = ApplyAll | ApplyShaping | ApplyAsymmetric

text \<open>A curve point \<open>{x, y}\<close>.\<close>

record point =
  px :: real
  py :: real

text \<open>
  The object returned by \<open>getGeometryParameters\<close>. The per-edge fields are \<open>null\<close>
  (\<^term>\<open>None\<close>) unless the matching mode is \<open>'asymmetric'\<close>. The field \<open>length\<close> is
  \<open>length_p\<close> here.
\<close>

record params =
  length_p :: real
  width :: real
  thickness :: real
  edgeThickness :: real
  edgeThicknessApply :: edgeApply
  edgeTop :: "real option"
  edgeBottom :: "real option"
  edgeLeft :: "real option"
  edgeRight :: "real option"
  shape :: shape
  angleType :: angleType
  angleTop :: "angleType option"
  angleBottom :: "angleType option"
  angleLeft :: "angleType option"
  angleRight :: "angleType option"
  customAngle :: real
  edgeDepth :: real
  applyAllEdges :: bool
  longitudinalCurve :: real

text \<open>The object \<open>{y, topZ, bottomZ}\<close> returned by \<open>calculateVertexPosition\<close>
  (field \<open>y\<close> is \<open>vy\<close> here).\<close>

record vertexData =
  vy :: real
  topZ :: real
  bottomZ :: real

text \<open>An entry \<open>{top, bottom}\<close> of \<open>vertexGrid\<close>: two vertex indices
  (\<open>topV\<close>, \<open>bottomV\<close> here).\<close>

record gridCell =
  topV :: nat
  bottomV :: nat

text \<open>Reading a property of \<open>undefined\<close> throws a \<open>TypeError\<close>.\<close>

datatype jsError = TypeError

subsection \<open>JavaScript primitives\<close>

text \<open>\<open>xs[k]\<close> for an integer \<open>k\<close>: \<open>undefined\<close> (\<^term>\<open>None\<close>) out of range.\<close>

definition elemAt :: "'a list \<Rightarrow> int \<Rightarrow> 'a option" where
  "elemAt xs k = (if 0 \<le> k \<and> k < int (length xs) then Some (xs ! nat k) else None)"

text \<open>The numeric value of a field that may be \<open>null\<close>: \<open>null\<close> converts to \<open>0\<close>.\<close>

definition toNumber :: "real option \<Rightarrow> real" where
  "toNumber v = (case v of None \<Rightarrow> 0 | Some r \<Rightarrow> r)"

text \<open>A loop that pushes one result per counter value and stops at the first throw.\<close>

fun collect :: "(nat \<Rightarrow> jsError + 'a) \<Rightarrow> nat list \<Rightarrow> jsError + 'a list" where
  "collect f [] = Inr []"
| "collect f (i # is) =
     (case f i of
        Inl e \<Rightarrow> Inl e
      | Inr v \<Rightarrow> (case collect f is of Inl e \<Rightarrow> Inl e | Inr vs \<Rightarrow> Inr (v # vs)))"

subsection \<open>getShapeModifier\<close>

definition getShapeModifier :: "real \<Rightarrow> real \<Rightarrow> shape \<Rightarrow> real" where
  "getShapeModifier t s sh =
     (case sh of
        Oval \<Rightarrow> sqrt (max 0 (1 - (2 * t - 1) ^ 2)) * 0.8 + 0.2
      | Circle \<Rightarrow> sqrt (max 0 (1 - (2 * t - 1) ^ 2)) * 0.9 + 0.1
      | Teardrop \<Rightarrow> (1 - t) * 0.7 + 0.3
      | Kidney \<Rightarrow> 1 - \<bar>sin (t * pi)\<bar> * 0.4 * \<bar>s - 0.5\<bar> * 2
      | AsymmetricTeardrop \<Rightarrow>
          (let asymFactor = (if s < 0.5 then 0.8 else 1.2)
           in ((1 - t) * 0.7 + 0.3) * asymFactor)
      | _ \<Rightarrow> 1)"

subsection \<open>smoothCurvePoints\<close>

text \<open>
  One iteration of the resampling loop, for counter \<open>i\<close>, on the sorted points. The four
  array reads are \<^const>\<open>elemAt\<close>; reading \<open>.y\<close> of a missing element throws.

  \<open>Math.floor\<close> is taken here of the exact product \<open>t * (n - 1)\<close>; the code takes it of a
  double, which can fall just below an integer (with 100 points, \<open>(27 / 99) * 99\<close> is
  \<open>26.999999999999996\<close>), and then reads the segment before. The index stays in range either
  way, and the theorems below are about the number of samples, their \<open>x\<close> and the clamp of
  their \<open>y\<close>, not about which segment a sample is read from.
\<close>

definition smoothSample :: "point list \<Rightarrow> real \<Rightarrow> nat \<Rightarrow> jsError + point" where
  "smoothSample sortedPts tension i =
     (let resolution = (100 :: nat);
          t = real i / real (resolution - 1);
          n = int (length sortedPts);
          index = \<lfloor>t * real_of_int (n - 1)\<rfloor>;
          nextIndex = min (index + 1) (n - 1);
          localT = t * real_of_int (n - 1) - real_of_int index
      in case (elemAt sortedPts (max 0 (index - 1)), elemAt sortedPts index, elemAt sortedPts nextIndex,
               elemAt sortedPts (min (n - 1) (nextIndex + 1))) of
           (Some p0, Some p1, Some p2, Some p3) \<Rightarrow>
             (let yv = 0.5 * (
                    (2 * py p1) +
                    (- py p0 + py p2) * localT * tension +
                    (2 * py p0 - 5 * py p1 + 4 * py p2 - py p3) * localT * localT * tension +
                    (- py p0 + 3 * py p1 - 3 * py p2 + py p3) * localT * localT * localT * tension)
              in Inr \<lparr>px = t, py = max 0 (min 1 yv)\<rparr>)
         | _ \<Rightarrow> Inl TypeError)"

text \<open>
  \<open>[...points].sort((a, b) => a.x - b.x)\<close> is a stable sort by \<open>x\<close>:
  \<^term>\<open>sort_key px\<close>.
\<close>

definition smoothCurvePoints :: "point list \<Rightarrow> real \<Rightarrow> jsError + point list" where
  "smoothCurvePoints points smoothingFactor =
     (if length points < 3 then Inr points
      else
        (let sortedPts = sort_key px points;
             resolution = (100 :: nat);
             tension = smoothingFactor / 100
         in collect (smoothSample sortedPts tension) [0..<resolution]))"

subsection \<open>applyEdgeAngle\<close>

text \<open>
  The profile argument is \<^term>\<open>None\<close> when the caller passes \<open>null\<close>. For \<open>null\<close> and
  for \<open>'asymmetric'\<close> no \<open>case\<close> of the \<open>switch\<close> matches and \<open>thickness / 2\<close> is returned.

  The factors \<open>1 - angleEffect * 0.95\<close> and \<open>1 - curveAmount * 0.9\<close> are exact here. In doubles
  at \<open>angleEffect = 1\<close> they are \<open>0.050000000000000044\<close> and \<open>0.09999999999999998\<close>, not
  \<open>0.05\<close> and \<open>0.1\<close>; the statements about this function below keep a margin where such a
  factor decides them.
\<close>

definition applyEdgeAngle :: "angleType option \<Rightarrow> real \<Rightarrow> real \<Rightarrow> real \<Rightarrow> real" where
  "applyEdgeAngle angleTy customAng thick angleEffect =
     (let topZ0 = thick / 2
      in case angleTy of
           Some Straight \<Rightarrow> topZ0
         | Some Sharp \<Rightarrow> max 0.1 (thick / 2 * (1 - angleEffect * 0.95))
         | Some Bevel \<Rightarrow>
             (let bevelRad = (30 * pi) / 180;
                  bevelReduction = tan bevelRad * (thick * angleEffect * 0.5)
              in max 0.1 (thick / 2 - bevelReduction))
         | Some Miter \<Rightarrow>
             (let miterRad = (45 * pi) / 180;
                  miterReduction = tan miterRad * (thick * angleEffect * 0.5)
              in max 0.1 (thick / 2 - miterReduction))
         | Some Rounded \<Rightarrow>
             (let curveAmount = sin (angleEffect * pi / 2)
              in thick / 2 * (1 - curveAmount * 0.9))
         | Some CustomAngle \<Rightarrow>
             (let customRad = (customAng * pi) / 180;
                  customReduction = tan customRad * (thick * angleEffect * 0.5)
              in max 0.1 (thick / 2 - customReduction))
         | _ \<Rightarrow> topZ0)"

subsection \<open>calculateVertexPosition\<close>

text \<open>
  The custom-curve branch: \<open>smoothedCurve\<close> is an array here (every array is truthy,
  the empty one too); the element read may be \<open>undefined\<close>, and then the modifier stays \<open>1\<close>.
\<close>

definition curveShapeModifier :: "point list \<Rightarrow> real \<Rightarrow> real \<Rightarrow> real" where
  "curveShapeModifier curve s t =
     (let n = int (length curve);
          pointIndex = \<lfloor>t * real_of_int (n - 1)\<rfloor>
      in case elemAt curve (min pointIndex (n - 1)) of
           None \<Rightarrow> 1
         | Some pt \<Rightarrow>
             (let curveInfluence = s;
                  centerY = 0.5;
                  curveModifier = 1 - \<bar>py pt - centerY\<bar> * 1.5;
                  clampedModifier = max 0.1 (min 1 curveModifier)
              in 1.0 * (1 - curveInfluence) + clampedModifier * curveInfluence))"

text \<open>
  The \<open>if / else if\<close> chain that picks the per-edge value of the nearest edge; the
  fourth argument is the value kept when no test holds.
\<close>

definition nearestEdgeChoice :: "bool \<Rightarrow> bool \<Rightarrow> bool \<Rightarrow> bool \<Rightarrow> 'a \<Rightarrow> 'a \<Rightarrow> 'a \<Rightarrow> 'a \<Rightarrow> 'a \<Rightarrow> 'a" where
  "nearestEdgeChoice isNearTop isNearBottom isNearLeft isNearRight vTop vBottom vLeft vRight keep =
     (if isNearTop then vTop
      else if isNearBottom then vBottom
      else if isNearLeft then vLeft
      else if isNearRight then vRight
      else keep)"

definition calculateVertexPosition ::
  "real \<Rightarrow> real \<Rightarrow> real \<Rightarrow> params \<Rightarrow> point list option \<Rightarrow> nat \<Rightarrow> real \<Rightarrow> vertexData" where
  "calculateVertexPosition x s t p smoothedCurve widthSegments curveOffset =
     (let y0 = (s - 0.5) * width p;
          shapeModifier =
            (case smoothedCurve of
               Some curve \<Rightarrow> curveShapeModifier curve s t
             | None \<Rightarrow> getShapeModifier t s (shape p));
          y1 = y0 * shapeModifier;
          actualWidth = width p * \<bar>shapeModifier\<bar>;
          actualLength = length_p p;
          distFromTop = actualWidth * (1 - s);
          distFromBottom = actualWidth * s;
          distFromLeft = actualLength * t;
          distFromRight = actualLength * (1 - t);
          minDistToEdge = min (min (min distFromTop distFromBottom) distFromLeft) distFromRight;
          isNearTop = (distFromTop = minDistToEdge);
          isNearBottom = (distFromBottom = minDistToEdge);
          isNearLeft = (distFromLeft = minDistToEdge);
          isNearRight = (distFromRight = minDistToEdge);
          isShapingEdge = isNearTop;
          targetEdgeThickness =
            (if edgeThicknessApply p = ApplyAsymmetric
             then nearestEdgeChoice isNearTop isNearBottom isNearLeft isNearRight
                    (toNumber (edgeTop p)) (toNumber (edgeBottom p))
                    (toNumber (edgeLeft p)) (toNumber (edgeRight p)) (edgeThickness p)
             else edgeThickness p);
          currentThickness =
            (if minDistToEdge \<le> edgeDepth p then
               (let edgeProgress = minDistToEdge / edgeDepth p;
                    shouldApplyEdgeThickness =
                      (edgeThicknessApply p = ApplyAll \<or>
                       edgeThicknessApply p = ApplyAsymmetric \<or>
                       (edgeThicknessApply p = ApplyShaping \<and> isShapingEdge))
                in if shouldApplyEdgeThickness
                   then targetEdgeThickness * (1 - edgeProgress) + thickness p * edgeProgress
                   else thickness p)
             else thickness p);
          topZ0 = currentThickness / 2 + curveOffset;
          bottomZ0 = - currentThickness / 2 - curveOffset;
          topZ1 =
            (if minDistToEdge \<le> edgeDepth p then
               (let edgeProgress = minDistToEdge / edgeDepth p;
                    shouldApplyAngle =
                      (applyAllEdges p \<or>
                       shape p = Oval \<or>
                       shape p = Custom \<or>
                       isNearTop \<or>
                       distFromBottom = minDistToEdge \<or>
                       distFromLeft \<le> edgeDepth p \<or>
                       distFromRight \<le> edgeDepth p)
                in if shouldApplyAngle then
                     (let angleEffect = 1 - edgeProgress;
                          edgeAngleType =
                            (if angleType p = Asymmetric
                             then nearestEdgeChoice isNearTop isNearBottom isNearLeft isNearRight
                                    (angleTop p) (angleBottom p) (angleLeft p) (angleRight p)
                                    (Some (angleType p))
                             else Some (angleType p));
                          topZa = applyEdgeAngle edgeAngleType (customAngle p)
                                    currentThickness angleEffect + curveOffset
                      in topZa * angleEffect + ((currentThickness / 2) + curveOffset) * (1 - angleEffect))
                   else topZ0)
             else topZ0)
      in \<lparr>vy = y1, topZ = topZ1, bottomZ = bottomZ0\<rparr>)"

subsection \<open>createRibGeometry\<close>

text \<open>The mesh resolution: the two local constants of \<open>createRibGeometry\<close>.\<close>

definition segments :: nat where
  "segments = 60"

definition widthSegments :: nat where
  "widthSegments = 40"

text \<open>
  The position array and the index array of the geometry (\<open>geometry.attributes.position\<close>,
  \<open>geometry.index\<close>), both flat.
\<close>

record mesh =
  positions :: "real list"
  indices :: "nat list"

text \<open>The bow offset of row \<open>t\<close>, computed in the outer vertex loop.\<close>

definition longitudinalCurveOffset :: "params \<Rightarrow> real \<Rightarrow> real" where
  "longitudinalCurveOffset p t =
     (let longitudinalCurve = longitudinalCurve p / 100
      in sin (t * pi) * thickness p * longitudinalCurve * 3)"

text \<open>
  The body of the inner vertex loop for counter \<open>j\<close>. The state is the vertex array and
  the row under construction. \<open>vertices.length / 3\<close> is exact: the array grows by six
  numbers at a time.
\<close>

definition pushVertex ::
  "params \<Rightarrow> point list option \<Rightarrow> real \<Rightarrow> real \<Rightarrow> real \<Rightarrow>
   real list \<times> gridCell list \<Rightarrow> nat \<Rightarrow> real list \<times> gridCell list" where
  "pushVertex p smoothedCurve x t curveOffset st j =
     (let vertices = fst st;
          row = snd st;
          s = real j / real widthSegments;
          vertexData = calculateVertexPosition x s t p smoothedCurve widthSegments curveOffset;
          topIdx = length vertices div 3
      in (vertices @ [x, vy vertexData, topZ vertexData] @ [x, vy vertexData, bottomZ vertexData],
          row @ [\<lparr>topV = topIdx, bottomV = topIdx + 1\<rparr>]))"

text \<open>
  The body of the outer vertex loop for counter \<open>i\<close>. The state is the vertex array and
  \<open>vertexGrid\<close>.
\<close>

definition pushRow ::
  "params \<Rightarrow> point list option \<Rightarrow> real list \<times> gridCell list list \<Rightarrow> nat \<Rightarrow>
   real list \<times> gridCell list list" where
  "pushRow p smoothedCurve st i =
     (let vertices = fst st;
          vertexGrid = snd st;
          t = real i / real segments;
          x = (t - 0.5) * length_p p;
          curveOffset = longitudinalCurveOffset p t;
          st' = foldl (pushVertex p smoothedCurve x t curveOffset) (vertices, []) [0..<widthSegments + 1]
      in (fst st', vertexGrid @ [snd st']))"

definition generateVertices :: "params \<Rightarrow> point list option \<Rightarrow> real list \<times> gridCell list list" where
  "generateVertices p smoothedCurve = foldl (pushRow p smoothedCurve) ([], []) [0..<segments + 1]"

text \<open>The twelve indices pushed for grid cell \<open>(i, j)\<close>: top and bottom surface.\<close>

definition surfaceFaces :: "gridCell list list \<Rightarrow> nat \<Rightarrow> nat \<Rightarrow> nat list" where
  "surfaceFaces vertexGrid i j =
     (let v00 = vertexGrid ! i ! j;
          v10 = vertexGrid ! (i + 1) ! j;
          v11 = vertexGrid ! (i + 1) ! (j + 1);
          v01 = vertexGrid ! i ! (j + 1)
      in [topV v00, topV v10, topV v11] @
         [topV v00, topV v11, topV v01] @
         [bottomV v00, bottomV v11, bottomV v10] @
         [bottomV v00, bottomV v01, bottomV v11])"

text \<open>The twelve indices pushed for step \<open>i\<close> of the left and right walls.\<close>

definition sideFaces :: "gridCell list list \<Rightarrow> nat \<Rightarrow> nat list" where
  "sideFaces vertexGrid i =
     (let v0 = vertexGrid ! i ! 0;
          v1 = vertexGrid ! (i + 1) ! 0;
          v0r = vertexGrid ! i ! widthSegments;
          v1r = vertexGrid ! (i + 1) ! widthSegments
      in [topV v0, bottomV v0, bottomV v1] @
         [topV v0, bottomV v1, topV v1] @
         [topV v0r, topV v1r, bottomV v1r] @
         [topV v0r, bottomV v1r, bottomV v0r])"

text \<open>The twelve indices pushed for step \<open>j\<close> of the front and back walls.\<close>

definition endFaces :: "gridCell list list \<Rightarrow> nat \<Rightarrow> nat list" where
  "endFaces vertexGrid j =
     (let v0 = vertexGrid ! 0 ! j;
          v1 = vertexGrid ! 0 ! (j + 1);
          v0b = vertexGrid ! segments ! j;
          v1b = vertexGrid ! segments ! (j + 1)
      in [topV v0, topV v1, bottomV v1] @
         [topV v0, bottomV v1, bottomV v0] @
         [topV v0b, bottomV v0b, bottomV v1b] @
         [topV v0b, bottomV v1b, topV v1b])"

definition generateIndices :: "gridCell list list \<Rightarrow> nat list" where
  "generateIndices vertexGrid =
     concat (map (\<lambda>i. concat (map (surfaceFaces vertexGrid i) [0..<widthSegments])) [0..<segments]) @
     concat (map (sideFaces vertexGrid) [0..<segments]) @
     concat (map (endFaces vertexGrid) [0..<widthSegments])"

text \<open>
  \<open>createRibGeometry\<close>. The parameters, the drawn points (\<open>customCurvePoints\<close>) and the
  smoothing amount are read from the page and from a global in the source; they are
  arguments here. \<open>validateParameters\<close> only toggles warnings.
\<close>

definition createRibGeometry :: "params \<Rightarrow> point list \<Rightarrow> real \<Rightarrow> jsError + mesh" where
  "createRibGeometry p customCurvePoints smoothingFactor =
     (case (if shape p = Custom \<and> length customCurvePoints > 0
            then map_sum id Some (smoothCurvePoints customCurvePoints smoothingFactor)
            else Inr None) of
        Inl e \<Rightarrow> Inl e
      | Inr smoothedCurve \<Rightarrow>
          (let st = generateVertices p smoothedCurve;
               vertices = fst st;
               vertexGrid = snd st
           in Inr \<lparr>positions = vertices, indices = generateIndices vertexGrid\<rparr>))"

subsection \<open>updateStatistics: the volume\<close>

text \<open>
  The volume loop, \<open>for (i = 0; i < indices.length; i += 3)\<close>, with its accumulator.
  The index array always holds whole triples.
\<close>

fun volumeLoop :: "real list \<Rightarrow> nat list \<Rightarrow> real \<Rightarrow> real" where
  "volumeLoop pos (a # b # c # rest) volume =
     (let i1 = a * 3; i2 = b * 3; i3 = c * 3;
          v1 = [pos ! i1, pos ! (i1 + 1), pos ! (i1 + 2)];
          v2 = [pos ! i2, pos ! (i2 + 1), pos ! (i2 + 2)];
          v3 = [pos ! i3, pos ! (i3 + 1), pos ! (i3 + 2)]
      in volumeLoop pos rest
           (volume +
            \<bar>v1 ! 0 * (v2 ! 1 * v3 ! 2 - v2 ! 2 * v3 ! 1) +
             v2 ! 0 * (v3 ! 1 * v1 ! 2 - v3 ! 2 * v1 ! 1) +
             v3 ! 0 * (v1 ! 1 * v2 ! 2 - v1 ! 2 * v2 ! 1)\<bar> / 6))"
| "volumeLoop pos _ volume = volume"

text \<open>The volume statistic in \<open>cm\<^sup>3\<close>, before it is formatted for display.\<close>

definition volumeCm3 :: "mesh \<Rightarrow> real" where
  "volumeCm3 geometry = \<bar>volumeLoop (positions geometry) (indices geometry) 0\<bar> / 1000"

subsection \<open>Triangles and shared edges\<close>

text \<open>The triangles of a flat index array, in order.\<close>

fun triangles :: "nat list \<Rightarrow> (nat \<times> nat \<times> nat) list" where
  "triangles (a # b # c # rest) = (a, b, c) # triangles rest"
| "triangles _ = []"

text \<open>Triangle \<open>tri\<close> has both \<open>a\<close> and \<open>b\<close> among its corners.\<close>

definition hasEdge :: "nat \<Rightarrow> nat \<Rightarrow> nat \<times> nat \<times> nat \<Rightarrow> bool" where
  "hasEdge a b tri = (case tri of (u, v, w) \<Rightarrow> (a = u \<or> a = v \<or> a = w) \<and> (b = u \<or> b = v \<or> b = w))"

text \<open>The number of triangles of the index array that share the edge \<open>{a, b}\<close>.\<close>

definition edgeCount :: "nat list \<Rightarrow> nat \<Rightarrow> nat \<Rightarrow> nat" where
  "edgeCount idx a b = length (filter (hasEdge a b) (triangles idx))"

text \<open>
  A closed 2-manifold index array: every triangle has three different corners, and each
  of its three edges is shared by exactly two triangles of the array.
\<close>

definition closedManifold :: "nat list \<Rightarrow> bool" where
  "closedManifold idx =
     list_all (\<lambda>tri. case tri of (u, v, w) \<Rightarrow>
        u \<noteq> v \<and> v \<noteq> w \<and> w \<noteq> u \<and>
        edgeCount idx u v = 2 \<and> edgeCount idx v w = 2 \<and> edgeCount idx w u = 2) (triangles idx)"

subsection \<open>Closed forms of the loops\<close>

text \<open>
  The definitions of this subsection are not part of the program: they name what the
  loops of \<open>createRibGeometry\<close> compute, and the lemmas below prove that they do.
\<close>

text \<open>The solver's result at grid point \<open>(i, j)\<close>, with the arguments the loops pass.\<close>

definition gridVertex :: "params \<Rightarrow> point list option \<Rightarrow> nat \<Rightarrow> nat \<Rightarrow> vertexData" where
  "gridVertex p smoothedCurve i j =
     calculateVertexPosition ((real i / real segments - 0.5) * length_p p)
       (real j / real widthSegments) (real i / real segments) p smoothedCurve widthSegments
       (longitudinalCurveOffset p (real i / real segments))"

text \<open>The \<open>x\<close> coordinate of row \<open>i\<close>.\<close>

definition gridX :: "params \<Rightarrow> nat \<Rightarrow> real" where
  "gridX p i = (real i / real segments - 0.5) * length_p p"

text \<open>The six numbers pushed for grid point \<open>(i, j)\<close>.\<close>

definition vertexSix :: "params \<Rightarrow> point list option \<Rightarrow> nat \<Rightarrow> nat \<Rightarrow> real list" where
  "vertexSix p smoothedCurve i j =
     [gridX p i, vy (gridVertex p smoothedCurve i j), topZ (gridVertex p smoothedCurve i j),
      gridX p i, vy (gridVertex p smoothedCurve i j), bottomZ (gridVertex p smoothedCurve i j)]"

text \<open>The vertex indices of grid point \<open>(i, j)\<close>: top and bottom surface.\<close>

definition topIndex :: "nat \<Rightarrow> nat \<Rightarrow> nat" where
  "topIndex i j = 2 * (i * (widthSegments + 1) + j)"

definition bottomIndex :: "nat \<Rightarrow> nat \<Rightarrow> nat" where
  "bottomIndex i j = 2 * (i * (widthSegments + 1) + j) + 1"

text \<open>The four triangles of a grid cell, of a side-wall step and of an end-wall step.\<close>

definition surfaceTriangles :: "nat \<Rightarrow> nat \<Rightarrow> (nat \<times> nat \<times> nat) list" where
  "surfaceTriangles i j =
     [(topIndex i j, topIndex (i + 1) j, topIndex (i + 1) (j + 1)),
      (topIndex i j, topIndex (i + 1) (j + 1), topIndex i (j + 1)),
      (bottomIndex i j, bottomIndex (i + 1) (j + 1), bottomIndex (i + 1) j),
      (bottomIndex i j, bottomIndex i (j + 1), bottomIndex (i + 1) (j + 1))]"

definition sideTriangles :: "nat \<Rightarrow> (nat \<times> nat \<times> nat) list" where
  "sideTriangles i =
     [(topIndex i 0, bottomIndex i 0, bottomIndex (i + 1) 0),
      (topIndex i 0, bottomIndex (i + 1) 0, topIndex (i + 1) 0),
      (topIndex i widthSegments, topIndex (i + 1) widthSegments, bottomIndex (i + 1) widthSegments),
      (topIndex i widthSegments, bottomIndex (i + 1) widthSegments, bottomIndex i widthSegments)]"

definition endTriangles :: "nat \<Rightarrow> (nat \<times> nat \<times> nat) list" where
  "endTriangles j =
     [(topIndex 0 j, topIndex 0 (j + 1), bottomIndex 0 (j + 1)),
      (topIndex 0 j, bottomIndex 0 (j + 1), bottomIndex 0 j),
      (topIndex segments j, bottomIndex segments j, bottomIndex segments (j + 1)),
      (topIndex segments j, bottomIndex segments (j + 1), topIndex segments (j + 1))]"

definition meshTriangles :: "(nat \<times> nat \<times> nat) list" where
  "meshTriangles =
     concat (map (\<lambda>i. concat (map (surfaceTriangles i) [0..<widthSegments])) [0..<segments]) @
     concat (map sideTriangles [0..<segments]) @
     concat (map endTriangles [0..<widthSegments])"

text \<open>The finished vertex array.\<close>

definition vertexArray :: "params \<Rightarrow> point list option \<Rightarrow> real list" where
  "vertexArray p sc = concat (map (\<lambda>i. concat (map (vertexSix p sc i) [0..<widthSegments + 1])) [0..<segments + 1])"

text \<open>The finished \<open>vertexGrid\<close>.\<close>

definition gridClosed :: "gridCell list list" where
  "gridClosed = map (\<lambda>i. map (\<lambda>j. \<lparr>topV = topIndex i j, bottomV = bottomIndex i j\<rparr>) [0..<widthSegments + 1]) [0..<segments + 1]"

text \<open>The three coordinates of vertex \<open>k\<close> in a position array.\<close>

definition coord :: "real list \<Rightarrow> nat \<Rightarrow> real \<times> real \<times> real" where
  "coord pos k = (pos ! (k * 3), pos ! (k * 3 + 1), pos ! (k * 3 + 2))"

text \<open>The volume term of a triangle given by the coordinates of its corners.\<close>

definition tetra3 :: "real \<times> real \<times> real \<Rightarrow> real \<times> real \<times> real \<Rightarrow> real \<times> real \<times> real \<Rightarrow> real" where
  "tetra3 a b c =
     (case a of (a0, a1, a2) \<Rightarrow> case b of (b0, b1, b2) \<Rightarrow> case c of (c0, c1, c2) \<Rightarrow>
        \<bar>a0 * (b1 * c2 - b2 * c1) + b0 * (c1 * a2 - c2 * a1) + c0 * (a1 * b2 - a2 * b1)\<bar> / 6)"

text \<open>The three directed edges of a triangle, in its winding order.\<close>

definition dedges :: "nat \<times> nat \<times> nat \<Rightarrow> (nat \<times> nat) list" where
  "dedges tri = (case tri of (u, v, w) \<Rightarrow> [(u, v), (v, w), (w, u)])"

text \<open>The directed edges of a grid cell, of a side-wall step and of an end-wall step.\<close>

definition surfaceEdges :: "nat \<Rightarrow> nat \<Rightarrow> (nat \<times> nat) list" where
  "surfaceEdges i j = concat (map dedges (surfaceTriangles i j))"

definition sideEdges :: "nat \<Rightarrow> (nat \<times> nat) list" where
  "sideEdges i = concat (map dedges (sideTriangles i))"

definition endEdges :: "nat \<Rightarrow> (nat \<times> nat) list" where
  "endEdges j = concat (map dedges (endTriangles j))"

text \<open>Row, column and surface (\<open>0\<close> top, \<open>1\<close> bottom) of a vertex index.\<close>

definition vrow :: "nat \<Rightarrow> nat" where
  "vrow k = (k div 2) div (widthSegments + 1)"

definition vcol :: "nat \<Rightarrow> nat" where
  "vcol k = (k div 2) mod (widthSegments + 1)"

definition vside :: "nat \<Rightarrow> nat" where
  "vside k = k mod 2"

text \<open>
  The loop step that pushes a directed edge, read off the edge: \<open>(0, i, j)\<close> is grid cell
  \<open>(i, j)\<close>, \<open>(1, i, 0)\<close> is step \<open>i\<close> of the side walls and \<open>(2, 0, j)\<close> is step \<open>j\<close> of
  the end walls. The arguments are row, column and surface of the two end points.
\<close>

definition ownerOf :: "nat \<times> nat \<times> nat \<Rightarrow> nat \<times> nat \<times> nat \<Rightarrow> nat \<times> nat \<times> nat" where
  "ownerOf a b =
     (case a of (ra, ca, sa) \<Rightarrow> case b of (rb, cb, sb) \<Rightarrow>
        if sa \<noteq> sb then
          (if ra \<noteq> rb then (1, min ra rb, 0)
           else if ca \<noteq> cb then (2, 0, min ca cb)
           else if sa = 0 then
             (if ca = 0 \<and> ra < segments then (1, ra, 0)
              else if ca = widthSegments \<and> 1 \<le> ra then (1, ra - 1, 0)
              else if ra = 0 then (2, 0, ca - 1)
              else (2, 0, ca))
           else
             (if ca = 0 \<and> 1 \<le> ra then (1, ra - 1, 0)
              else if ca = widthSegments \<and> ra < segments then (1, ra, 0)
              else if ra = 0 then (2, 0, ca)
              else (2, 0, ca - 1)))
        else if sa = 0 then
          (if ra \<noteq> rb \<and> ca \<noteq> cb then (0, min ra rb, min ca cb)
           else if rb = ra + 1 then (if ca < widthSegments then (0, ra, ca) else (1, ra, 0))
           else if ra = rb + 1 then (if 1 \<le> ca then (0, rb, ca - 1) else (1, rb, 0))
           else if cb = ca + 1 then (if 1 \<le> ra then (0, ra - 1, ca) else (2, 0, ca))
           else (if ra < segments then (0, ra, cb) else (2, 0, cb)))
        else
          (if ra \<noteq> rb \<and> ca \<noteq> cb then (0, min ra rb, min ca cb)
           else if rb = ra + 1 then (if 1 \<le> ca then (0, ra, ca - 1) else (1, ra, 0))
           else if ra = rb + 1 then (if ca < widthSegments then (0, rb, ca) else (1, rb, 0))
           else if cb = ca + 1 then (if ra < segments then (0, ra, ca) else (2, 0, ca))
           else (if 1 \<le> ra then (0, ra - 1, cb) else (2, 0, cb))))"

definition ownerKey :: "nat \<times> nat \<Rightarrow> nat \<times> nat \<times> nat" where
  "ownerKey e = (case e of (a, b) \<Rightarrow> ownerOf (vrow a, vcol a, vside a) (vrow b, vcol b, vside b))"

text \<open>The loop steps in order, and the edges each of them pushes.\<close>

definition meshKeys :: "(nat \<times> nat \<times> nat) list" where
  "meshKeys =
     concat (map (\<lambda>i. map (\<lambda>j. (0, i, j)) [0..<widthSegments]) [0..<segments]) @
     map (\<lambda>i. (1, i, 0)) [0..<segments] @
     map (\<lambda>j. (2, 0, j)) [0..<widthSegments]"

definition keyEdges :: "nat \<times> nat \<times> nat \<Rightarrow> (nat \<times> nat) list" where
  "keyEdges k =
     (case k of (c, i, j) \<Rightarrow>
        if c = 0 then surfaceEdges i j else if c = 1 then sideEdges i else endEdges j)"

text \<open>The term that one triangle adds to the volume accumulator.\<close>

definition tetraVolume :: "real list \<Rightarrow> nat \<times> nat \<times> nat \<Rightarrow> real" where
  "tetraVolume pos tri =
     (case tri of (a, b, c) \<Rightarrow>
        \<bar>pos ! (a * 3) * (pos ! (b * 3 + 1) * pos ! (c * 3 + 2) - pos ! (b * 3 + 2) * pos ! (c * 3 + 1)) +
         pos ! (b * 3) * (pos ! (c * 3 + 1) * pos ! (a * 3 + 2) - pos ! (c * 3 + 2) * pos ! (a * 3 + 1)) +
         pos ! (c * 3) * (pos ! (a * 3 + 1) * pos ! (b * 3 + 2) - pos ! (a * 3 + 2) * pos ! (b * 3 + 1))\<bar> / 6)"

subsection \<open>The reference scenario\<close>

text \<open>
  The parameter record of the spec's concrete scenario: 100 by 60 by 6, rectangular,
  edge thickness 6 applied to all edges, straight profile, edge depth 10, no bow. The
  fields the scenario leaves open take the defaults of \<open>getGeometryParameters\<close>.
\<close>

definition scenarioParams :: params where
  "scenarioParams =
     \<lparr>length_p = 100, width = 60, thickness = 6,
      edgeThickness = 6, edgeThicknessApply = ApplyAll,
      edgeTop = None, edgeBottom = None, edgeLeft = None, edgeRight = None,
      shape = Rectangular,
      angleType = Straight,
      angleTop = None, angleBottom = None, angleLeft = None, angleRight = None,
      customAngle = 45,
      edgeDepth = 10, applyAllEdges = False,
      longitudinalCurve = 0\<rparr>"

text \<open>
  A record in asymmetric mode: per-edge thicknesses and per-edge profiles, a sharp top edge
  and a bow of 20 percent.
\<close>

definition asymmetricParams :: params where
  "asymmetricParams =
     \<lparr>length_p = 120, width = 70, thickness = 5,
      edgeThickness = 2, edgeThicknessApply = ApplyAsymmetric,
      edgeTop = Some 1, edgeBottom = Some 3, edgeLeft = Some 2, edgeRight = Some 4,
      shape = Kidney,
      angleType = Asymmetric,
      angleTop = Some Sharp, angleBottom = Some Miter, angleLeft = Some Rounded,
      angleRight = Some Bevel,
      customAngle = 45,
      edgeDepth = 8, applyAllEdges = False,
      longitudinalCurve = 20\<rparr>"

subsection \<open>A record on which the volume statistic falls as the thickness grows\<close>

text \<open>
  A body of thickness 3 with edges of thickness 12: length 200, width 100, rectangular,
  edge thickness 12 on all edges, straight profile, edge depth 3, no bow. Every value is
  inside the documented range of its control.
\<close>

definition thinBodyParams :: params where
  "thinBodyParams =
     \<lparr>length_p = 200, width = 100, thickness = 3,
      edgeThickness = 12, edgeThicknessApply = ApplyAll,
      edgeTop = None, edgeBottom = None, edgeLeft = None, edgeRight = None,
      shape = Rectangular,
      angleType = Straight,
      angleTop = None, angleBottom = None, angleLeft = None, angleRight = None,
      customAngle = 45,
      edgeDepth = 3, applyAllEdges = False,
      longitudinalCurve = 0\<rparr>"

text \<open>
  For a rectangular shape: \<open>minDistToEdge\<close> and \<open>currentThickness\<close> at grid point
  \<open>(i, j)\<close> when the edge thickness is applied to all edges.
\<close>

definition edgeDistance :: "params \<Rightarrow> nat \<Rightarrow> nat \<Rightarrow> real" where
  "edgeDistance p i j =
     min (min (min (width p * (1 - real j / real widthSegments)) (width p * (real j / real widthSegments)))
              (length_p p * (real i / real segments)))
         (length_p p * (1 - real i / real segments))"

definition bodyThickness :: "params \<Rightarrow> nat \<Rightarrow> nat \<Rightarrow> real" where
  "bodyThickness p i j =
     (if edgeDistance p i j \<le> edgeDepth p
      then edgeThickness p * (1 - edgeDistance p i j / edgeDepth p)
           + thickness p * (edgeDistance p i j / edgeDepth p)
      else thickness p)"

section \<open>Properties\<close>

subsection \<open>The curve smoother on sparse input\<close>

text \<open>
  C8. For every list of fewer than 3 points and every smoothing strength, the curve
  smoother returns the list it was given, unchanged: it does not throw and does not
  resample.
\<close>

theorem smoothCurvePoints_short:
  "length points < 3 \<Longrightarrow> smoothCurvePoints points smoothingFactor = Inr points"
  by (simp add: smoothCurvePoints_def)

theorem smoothCurvePoints_short_witness:
  "length [\<lparr>px = 1/2, py = 1/4\<rparr>, \<lparr>px = 0, py = 1\<rparr>] < 3 \<and>
   smoothCurvePoints [\<lparr>px = 1/2, py = 1/4\<rparr>, \<lparr>px = 0, py = 1\<rparr>] 50
     = Inr [\<lparr>px = 1/2, py = 1/4\<rparr>, \<lparr>px = 0, py = 1\<rparr>]"
  using smoothCurvePoints_short [of "[\<lparr>px = 1/2, py = 1/4\<rparr>, \<lparr>px = 0, py = 1\<rparr>]" 50]
  by simp

subsection \<open>The shape modifier\<close>

lemma kidney_bounds:
  assumes s: "0 \<le> s" "s \<le> 1"
  shows "0 < getShapeModifier t s Kidney \<and> getShapeModifier t s Kidney \<le> 1.2"
proof -
  have sn: "0 \<le> \<bar>sin (t * pi)\<bar>" "\<bar>sin (t * pi)\<bar> \<le> 1" by auto
  have ab: "0 \<le> \<bar>s - 0.5\<bar>" "\<bar>s - 0.5\<bar> \<le> 0.5" using s by (auto simp: abs_if)
  have k: "\<bar>sin (t * pi)\<bar> * \<bar>s - 0.5\<bar> \<le> 1 * 0.5"
    by (rule mult_mono) (use sn ab in auto)
  have k0: "0 \<le> \<bar>sin (t * pi)\<bar> * \<bar>s - 0.5\<bar>" by simp
  have "getShapeModifier t s Kidney = 1 - 0.8 * (\<bar>sin (t * pi)\<bar> * \<bar>s - 0.5\<bar>)"
    by (simp add: getShapeModifier_def)
  then show ?thesis using k k0 by linarith
qed

text \<open>
  C6. For every shape tag and every \<open>(t, s)\<close> in \<open>[0,1] \<times> [0,1]\<close> the shape modifier is
  strictly positive and at most \<open>1.2\<close>. (The tag \<open>custom\<close>, which the source sends to the
  \<open>default\<close> branch as it does \<open>rectangular\<close>, is covered too.)
\<close>

theorem getShapeModifier_range: "0 \<le> t \<Longrightarrow> t \<le> 1 \<Longrightarrow> 0 \<le> s \<Longrightarrow> s \<le> 1 \<Longrightarrow>
   0 < getShapeModifier t s sh \<and> getShapeModifier t s sh \<le> 1.2"
proof -
  assume t: "0 \<le> t" "t \<le> 1" and s: "0 \<le> s" "s \<le> 1"
  define q where "q = sqrt (max 0 (1 - (2 * t - 1)\<^sup>2))"
  have q: "0 \<le> q" "q \<le> 1" by (auto simp: q_def max_def)
  define u where "u = (1 - t) * 0.7 + 0.3"
  have b1: "0.3 \<le> u" unfolding u_def using t by argo
  have b2: "u \<le> 1" unfolding u_def using t by argo
  show ?thesis
  proof (cases sh)
    case Rectangular
    then show ?thesis by (simp add: getShapeModifier_def)
  next
    case Oval
    have m: "getShapeModifier t s sh = q * 0.8 + 0.2"
      unfolding q_def using Oval by (simp only: getShapeModifier_def shape.case)
    show ?thesis unfolding m using q by argo
  next
    case Circle
    have m: "getShapeModifier t s sh = q * 0.9 + 0.1"
      unfolding q_def using Circle by (simp only: getShapeModifier_def shape.case)
    show ?thesis unfolding m using q by argo
  next
    case Teardrop
    have m: "getShapeModifier t s sh = u"
      unfolding u_def using Teardrop by (simp only: getShapeModifier_def shape.case)
    show ?thesis unfolding m using b1 b2 by argo
  next
    case Kidney
    then show ?thesis using kidney_bounds [OF s] by simp
  next
    case AsymmetricTeardrop
    have m: "getShapeModifier t s sh = u * (if s < 0.5 then 0.8 else 1.2)"
      unfolding u_def using AsymmetricTeardrop
      by (simp only: getShapeModifier_def Let_def shape.case)
    have lo: "0 < u * 0.8 \<and> u * 0.8 \<le> 1.2" using b1 b2 by argo
    have hi: "0 < u * 1.2 \<and> u * 1.2 \<le> 1.2" using b1 b2 by argo
    show ?thesis
    proof (cases "s < 0.5")
      case True
      then show ?thesis using lo by (simp only: m if_True)
    next
      case False
      then show ?thesis using hi by (simp only: m if_False)
    qed
  next
    case Custom
    then show ?thesis by (simp add: getShapeModifier_def)
  qed
qed

theorem getShapeModifier_range_witness:
  "(0::real) \<le> 1/2 \<and> (1/2::real) \<le> 1 \<and> (0::real) \<le> 1/4 \<and> (1/4::real) \<le> 1 \<and>
   0 < getShapeModifier (1/2) (1/4) AsymmetricTeardrop \<and>
   getShapeModifier (1/2) (1/4) AsymmetricTeardrop \<le> 1.2"
  using getShapeModifier_range [of "1/2" "1/4" AsymmetricTeardrop] by simp

subsection \<open>The edge profile evaluator\<close>




lemma applyEdgeAngle_simps:
  "applyEdgeAngle None ca th ae = th / 2"
  "applyEdgeAngle (Some Straight) ca th ae = th / 2"
  "applyEdgeAngle (Some Asymmetric) ca th ae = th / 2"
  "applyEdgeAngle (Some Sharp) ca th ae = max 0.1 (th / 2 * (1 - ae * 0.95))"
  "applyEdgeAngle (Some Bevel) ca th ae = max 0.1 (th / 2 - tan (30 * pi / 180) * (th * ae * 0.5))"
  "applyEdgeAngle (Some Miter) ca th ae = max 0.1 (th / 2 - tan (45 * pi / 180) * (th * ae * 0.5))"
  "applyEdgeAngle (Some Rounded) ca th ae = th / 2 * (1 - sin (ae * pi / 2) * 0.9)"
  "applyEdgeAngle (Some CustomAngle) ca th ae = max 0.1 (th / 2 - tan (ca * pi / 180) * (th * ae * 0.5))"
  by (simp_all only: applyEdgeAngle_def Let_def option.case angleType.case)





text \<open>
  C10 (amended). With the sharp profile and blend factor \<open>1\<close>, for every thickness: the top
  offset is never below the floor \<open>0.1\<close>; it is exactly \<open>0.1\<close> for every thickness up to
  \<open>3.9\<close>; and it is at most \<open>max 0.1 (thickness / 2 * 0.05)\<close> enlarged by one part in
  \<open>10\<^sup>9\<close>.

  In exact arithmetic the offset equals \<open>max 0.1 (thickness / 2 * 0.05)\<close>. The code computes
  the factor as \<open>1 - 1 * 0.95\<close>, which is \<open>0.050000000000000044\<close> in doubles, so from
  thickness \<open>4\<close> on it returns slightly more than \<open>thickness / 2 * 0.05\<close>, by about one part
  in \<open>10\<^sup>1\<^sup>5\<close>; the tolerance of the statement covers that, and the threshold \<open>3.9\<close>
  keeps the floor case away from it.
\<close>

theorem applyEdgeAngle_sharp_edge:
  "0.1 \<le> applyEdgeAngle (Some Sharp) customAng thick 1 \<and>
   applyEdgeAngle (Some Sharp) customAng thick 1 \<le> max 0.1 (thick / 2 * 0.05) * (1 + 1 / 10 ^ 9) \<and>
   (thick \<le> 3.9 \<longrightarrow> applyEdgeAngle (Some Sharp) customAng thick 1 = 0.1)"
proof -
  have e: "applyEdgeAngle (Some Sharp) customAng thick 1 = max 0.1 (thick / 2 * 0.05)"
    by (simp add: applyEdgeAngle_simps)
  have p: "0 < max 0.1 (thick / 2 * 0.05)" by (simp add: less_max_iff_disj)
  have "max 0.1 (thick / 2 * 0.05) * 1 \<le> max 0.1 (thick / 2 * 0.05) * (1 + 1 / 10 ^ 9)"
    using p by (intro mult_left_mono) simp_all
  then have u: "max 0.1 (thick / 2 * 0.05) \<le> max 0.1 (thick / 2 * 0.05) * (1 + 1 / 10 ^ 9)"
    by simp
  have f: "max 0.1 (thick / 2 * 0.05) = 0.1" if "thick \<le> 3.9"
    using that by (simp add: max_def)
  show ?thesis unfolding e using u f by simp
qed

theorem applyEdgeAngle_sharp_edge_witness:
  "(3::real) \<le> 3.9 \<and> applyEdgeAngle (Some Sharp) 45 3 1 = 0.1"
  using applyEdgeAngle_sharp_edge [of 45 3] by simp

text \<open>
  C10 as stated fails at thickness \<open>3\<close>, the bottom of the documented range: the offset
  is the floor \<open>0.1\<close>, above \<open>3 / 2 * 0.05 = 0.075\<close>.
\<close>

theorem applyEdgeAngle_sharp_edge_counterexample:
  "\<not> applyEdgeAngle (Some Sharp) 45 3 1 \<le> 3 / 2 * 0.05"
  by (simp add: applyEdgeAngle_simps)

subsection \<open>The curve smoother on three points or more\<close>

lemma collect_Inr:
  assumes "\<And>i. i \<in> set is \<Longrightarrow> \<exists>v. f i = Inr v \<and> P i v"
  shows "\<exists>vs. collect f is = Inr vs \<and> length vs = length is \<and>
           (\<forall>k < length is. P (is ! k) (vs ! k))"
  using assms
proof (induction "is")
  case Nil
  then show ?case by simp
next
  case (Cons i js)
  from Cons.prems [of i] obtain v where v: "f i = Inr v" "P i v" by auto
  from Cons.IH Cons.prems obtain vs where vs: "collect f js = Inr vs" "length vs = length js"
    "\<forall>k < length js. P (js ! k) (vs ! k)" by auto
  have "\<forall>k < length (i # js). P ((i # js) ! k) ((v # vs) ! k)"
    using v vs by (auto simp: nth_Cons split: nat.splits)
  then show ?case using v vs by simp
qed

lemma smoothSample_ok:
  assumes n: "3 \<le> length srt" and i: "i < 100"
  shows "\<exists>v. smoothSample srt tension i = Inr v \<and> px v = real i / 99 \<and> 0 \<le> py v \<and> py v \<le> 1"
proof -
  define n where "n = int (length srt)"
  define t where "t = real i / real (100 - 1 :: nat)"
  define index where "index = \<lfloor>t * real_of_int (n - 1)\<rfloor>"
  define nextIndex where "nextIndex = min (index + 1) (n - 1)"
  have n3: "3 \<le> n" using n by (simp add: n_def)
  have t01: "0 \<le> t" "t \<le> 1" using i by (simp_all add: t_def)
  have "0 \<le> t * real_of_int (n - 1)" using t01 n3 by simp
  then have i0: "0 \<le> index" by (simp add: index_def)
  have "t * real_of_int (n - 1) \<le> 1 * real_of_int (n - 1)"
    using t01 n3 by (intro mult_right_mono) auto
  then have "\<lfloor>t * real_of_int (n - 1)\<rfloor> \<le> \<lfloor>real_of_int (n - 1)\<rfloor>"
    by (intro floor_mono) simp
  then have i1: "index \<le> n - 1" unfolding index_def by (simp only: floor_of_int)
  have r0: "0 \<le> max 0 (index - 1) \<and> max 0 (index - 1) < n" using i0 i1 by auto
  have r1: "0 \<le> index \<and> index < n" using i0 i1 by auto
  have r2: "0 \<le> nextIndex \<and> nextIndex < n" using i0 i1 n3 by (auto simp: nextIndex_def)
  have r3: "0 \<le> min (n - 1) (nextIndex + 1) \<and> min (n - 1) (nextIndex + 1) < n"
    using r2 n3 by auto
  obtain p0 p1 p2 p3 where ps:
    "elemAt srt (max 0 (index - 1)) = Some p0" "elemAt srt index = Some p1"
    "elemAt srt nextIndex = Some p2" "elemAt srt (min (n - 1) (nextIndex + 1)) = Some p3"
    using r0 r1 r2 r3 unfolding elemAt_def n_def by simp
  show ?thesis
    unfolding smoothSample_def Let_def
    using ps unfolding n_def index_def nextIndex_def t_def
    by (simp del: of_int_diff of_nat_diff)
qed

lemma smoothCurvePoints_returns:
  assumes "3 \<le> length points"
  shows "\<exists>out. smoothCurvePoints points smoothingFactor = Inr out"
proof -
  let ?srt = "sort_key px points"
  have n: "3 \<le> length ?srt" using assms by simp
  have "\<exists>vs. collect (smoothSample ?srt (smoothingFactor / 100)) [0..<100] = Inr vs \<and>
          length vs = length [0..<100::nat] \<and>
          (\<forall>k < length [0..<100::nat]. (\<lambda>i v. True) ([0..<100] ! k) (vs ! k))"
    by (rule collect_Inr) (use smoothSample_ok [OF n] in auto)
  then show ?thesis using assms by (auto simp: smoothCurvePoints_def Let_def)
qed

text \<open>
  C7. For every list of at least 3 points, in any order, and every smoothing strength, the
  smoother returns (without throwing) exactly 100 points; sample \<open>i\<close> has \<open>x = i / 99\<close>
  and a \<open>y\<close> in \<open>[0,1]\<close>.
\<close>

theorem smoothCurvePoints_resampled:
  assumes "3 \<le> length points"
  shows "\<exists>out. smoothCurvePoints points smoothingFactor = Inr out \<and> length out = 100 \<and>
           (\<forall>i < 100. px (out ! i) = real i / 99 \<and> 0 \<le> py (out ! i) \<and> py (out ! i) \<le> 1)"
proof -
  let ?srt = "sort_key px points"
  have n: "3 \<le> length ?srt" using assms by simp
  have "\<exists>vs. collect (smoothSample ?srt (smoothingFactor / 100)) [0..<100] = Inr vs \<and>
          length vs = length [0..<100::nat] \<and>
          (\<forall>k < length [0..<100::nat]. (\<lambda>i v. px v = real i / 99 \<and> 0 \<le> py v \<and> py v \<le> 1) ([0..<100] ! k) (vs ! k))"
    by (rule collect_Inr) (use smoothSample_ok [OF n] in auto)
  then show ?thesis using assms by (auto simp: smoothCurvePoints_def Let_def)
qed


theorem smoothCurvePoints_resampled_witness:
  "3 \<le> length [\<lparr>px = 1/2, py = 1/4\<rparr>, \<lparr>px = 0, py = 1\<rparr>, \<lparr>px = 1, py = 0\<rparr>] \<and>
   (\<exists>out. smoothCurvePoints [\<lparr>px = 1/2, py = 1/4\<rparr>, \<lparr>px = 0, py = 1\<rparr>, \<lparr>px = 1, py = 0\<rparr>] 50 = Inr out \<and>
      length out = 100 \<and>
      (\<forall>i < 100. px (out ! i) = real i / 99 \<and> 0 \<le> py (out ! i) \<and> py (out ! i) \<le> 1))"
  using smoothCurvePoints_resampled
          [of "[\<lparr>px = 1/2, py = 1/4\<rparr>, \<lparr>px = 0, py = 1\<rparr>, \<lparr>px = 1, py = 0\<rparr>]" 50]
  by simp

subsection \<open>The vertex solver\<close>

lemma cvp_fields:
  fixes p :: params and s t x co :: real and smoothedCurve :: "point list option" and ws :: nat
  defines "sm \<equiv> (case smoothedCurve of Some curve \<Rightarrow> curveShapeModifier curve s t
                     | None \<Rightarrow> getShapeModifier t s (shape p))"
  defines "dT \<equiv> width p * \<bar>sm\<bar> * (1 - s)"
  defines "dB \<equiv> width p * \<bar>sm\<bar> * s"
  defines "dL \<equiv> length_p p * t"
  defines "dR \<equiv> length_p p * (1 - t)"
  defines "md \<equiv> min (min (min dT dB) dL) dR"
  defines "tgt \<equiv> (if edgeThicknessApply p = ApplyAsymmetric
             then nearestEdgeChoice (dT = md) (dB = md) (dL = md) (dR = md)
                    (toNumber (edgeTop p)) (toNumber (edgeBottom p))
                    (toNumber (edgeLeft p)) (toNumber (edgeRight p)) (edgeThickness p)
             else edgeThickness p)"
  defines "ct \<equiv> (if md \<le> edgeDepth p then
               (if (edgeThicknessApply p = ApplyAll \<or>
                       edgeThicknessApply p = ApplyAsymmetric \<or>
                       (edgeThicknessApply p = ApplyShaping \<and> dT = md))
                   then tgt * (1 - md / edgeDepth p) + thickness p * (md / edgeDepth p)
                   else thickness p)
             else thickness p)"
  defines "ety \<equiv> (if angleType p = Asymmetric
                             then nearestEdgeChoice (dT = md) (dB = md) (dL = md) (dR = md)
                                    (angleTop p) (angleBottom p) (angleLeft p) (angleRight p)
                                    (Some (angleType p))
                             else Some (angleType p))"
  defines "r \<equiv> calculateVertexPosition x s t p smoothedCurve ws co"
  shows "vy r = (s - 0.5) * width p * sm"
    and "bottomZ r = - ct / 2 - co"
    and "topZ r = (if md \<le> edgeDepth p then
                    (if (applyAllEdges p \<or> shape p = Oval \<or> shape p = Custom \<or> dT = md \<or> dB = md \<or>
                         dL \<le> edgeDepth p \<or> dR \<le> edgeDepth p)
                     then (applyEdgeAngle ety (customAngle p) ct (1 - md / edgeDepth p) + co) * (1 - md / edgeDepth p)
                          + (ct / 2 + co) * (1 - (1 - md / edgeDepth p))
                     else ct / 2 + co)
                  else ct / 2 + co)"
  unfolding r_def calculateVertexPosition_def Let_def ety_def ct_def tgt_def md_def dR_def dL_def dB_def dT_def sm_def
  by (simp_all only: vertexData.simps)

lemma nearest_guard:
  fixes dT dB dL dR ed :: real
  assumes "min (min (min dT dB) dL) dR \<le> ed"
  shows "dT = min (min (min dT dB) dL) dR \<or> dB = min (min (min dT dB) dL) dR \<or> dL \<le> ed \<or> dR \<le> ed"
  using assms by (auto simp: min_def split: if_splits)

lemma cvp_topZ:
  fixes p :: params and s t x co :: real and smoothedCurve :: "point list option" and ws :: nat
  defines "sm \<equiv> (case smoothedCurve of Some curve \<Rightarrow> curveShapeModifier curve s t
                     | None \<Rightarrow> getShapeModifier t s (shape p))"
  defines "dT \<equiv> width p * \<bar>sm\<bar> * (1 - s)"
  defines "dB \<equiv> width p * \<bar>sm\<bar> * s"
  defines "dL \<equiv> length_p p * t"
  defines "dR \<equiv> length_p p * (1 - t)"
  defines "md \<equiv> min (min (min dT dB) dL) dR"
  defines "tgt \<equiv> (if edgeThicknessApply p = ApplyAsymmetric
             then nearestEdgeChoice (dT = md) (dB = md) (dL = md) (dR = md)
                    (toNumber (edgeTop p)) (toNumber (edgeBottom p))
                    (toNumber (edgeLeft p)) (toNumber (edgeRight p)) (edgeThickness p)
             else edgeThickness p)"
  defines "ct \<equiv> (if md \<le> edgeDepth p then
               (if (edgeThicknessApply p = ApplyAll \<or>
                       edgeThicknessApply p = ApplyAsymmetric \<or>
                       (edgeThicknessApply p = ApplyShaping \<and> dT = md))
                   then tgt * (1 - md / edgeDepth p) + thickness p * (md / edgeDepth p)
                   else thickness p)
             else thickness p)"
  defines "ety \<equiv> (if angleType p = Asymmetric
                             then nearestEdgeChoice (dT = md) (dB = md) (dL = md) (dR = md)
                                    (angleTop p) (angleBottom p) (angleLeft p) (angleRight p)
                                    (Some (angleType p))
                             else Some (angleType p))"
  shows "topZ (calculateVertexPosition x s t p smoothedCurve ws co) =
           (if md \<le> edgeDepth p
            then (applyEdgeAngle ety (customAngle p) ct (1 - md / edgeDepth p) + co) * (1 - md / edgeDepth p)
                          + (ct / 2 + co) * (1 - (1 - md / edgeDepth p))
            else ct / 2 + co)"
proof (cases "md \<le> edgeDepth p")
  case True
  then have g: "dT = md \<or> dB = md \<or> dL \<le> edgeDepth p \<or> dR \<le> edgeDepth p"
    unfolding md_def by (rule nearest_guard)
  show ?thesis
    unfolding cvp_fields(3)
    using True g
    unfolding ety_def ct_def tgt_def md_def dR_def dL_def dB_def dT_def sm_def
    by (simp only: if_True simp_thms)
next
  case False
  show ?thesis
    unfolding cvp_fields(3)
    using False
    unfolding ety_def ct_def tgt_def md_def dR_def dL_def dB_def dT_def sm_def
    by (simp only: if_False)
qed

lemma applyAllEdges_update_fields:
  "length_p (p\<lparr>applyAllEdges := b\<rparr>) = length_p p"
  "width (p\<lparr>applyAllEdges := b\<rparr>) = width p"
  "thickness (p\<lparr>applyAllEdges := b\<rparr>) = thickness p"
  "edgeThickness (p\<lparr>applyAllEdges := b\<rparr>) = edgeThickness p"
  "edgeThicknessApply (p\<lparr>applyAllEdges := b\<rparr>) = edgeThicknessApply p"
  "edgeTop (p\<lparr>applyAllEdges := b\<rparr>) = edgeTop p"
  "edgeBottom (p\<lparr>applyAllEdges := b\<rparr>) = edgeBottom p"
  "edgeLeft (p\<lparr>applyAllEdges := b\<rparr>) = edgeLeft p"
  "edgeRight (p\<lparr>applyAllEdges := b\<rparr>) = edgeRight p"
  "shape (p\<lparr>applyAllEdges := b\<rparr>) = shape p"
  "angleType (p\<lparr>applyAllEdges := b\<rparr>) = angleType p"
  "angleTop (p\<lparr>applyAllEdges := b\<rparr>) = angleTop p"
  "angleBottom (p\<lparr>applyAllEdges := b\<rparr>) = angleBottom p"
  "angleLeft (p\<lparr>applyAllEdges := b\<rparr>) = angleLeft p"
  "angleRight (p\<lparr>applyAllEdges := b\<rparr>) = angleRight p"
  "customAngle (p\<lparr>applyAllEdges := b\<rparr>) = customAngle p"
  "edgeDepth (p\<lparr>applyAllEdges := b\<rparr>) = edgeDepth p"
  "longitudinalCurve (p\<lparr>applyAllEdges := b\<rparr>) = longitudinalCurve p"
  by simp_all

text \<open>
  C5. The result of \<open>calculateVertexPosition\<close> does not depend on the flag
  \<open>applyAllEdges\<close>: for every record, every value of the flag, every grid point, optional
  curve and bow offset, the three results are those of the record as it was. (Inside
  \<open>minDistToEdge \<le> edgeDepth\<close> the other disjuncts of \<open>shouldApplyAngle\<close> cover the four
  distances that can attain the minimum.)
\<close>

theorem calculateVertexPosition_applyAllEdges:
  "calculateVertexPosition x s t (p\<lparr>applyAllEdges := b\<rparr>) smoothedCurve ws curveOffset
     = calculateVertexPosition x s t p smoothedCurve ws curveOffset"
proof (rule vertexData.equality)
  show "vy (calculateVertexPosition x s t (p\<lparr>applyAllEdges := b\<rparr>) smoothedCurve ws curveOffset)
      = vy (calculateVertexPosition x s t p smoothedCurve ws curveOffset)"
    unfolding cvp_fields(1) applyAllEdges_update_fields by (rule refl)
  show "bottomZ (calculateVertexPosition x s t (p\<lparr>applyAllEdges := b\<rparr>) smoothedCurve ws curveOffset)
      = bottomZ (calculateVertexPosition x s t p smoothedCurve ws curveOffset)"
    unfolding cvp_fields(2) applyAllEdges_update_fields by (rule refl)
  show "topZ (calculateVertexPosition x s t (p\<lparr>applyAllEdges := b\<rparr>) smoothedCurve ws curveOffset)
      = topZ (calculateVertexPosition x s t p smoothedCurve ws curveOffset)"
    unfolding cvp_topZ applyAllEdges_update_fields by (rule refl)
qed simp

lemma applyEdgeAngle_pos:
  assumes th: "0 < th"
  shows "0 < applyEdgeAngle ty ca th ae"
proof -
  have mx: "0 < max 0.1 r" for r :: real by (simp add: max_def)
  have "sin (ae * pi / 2) \<le> 1" by simp
  then have "0 < 1 - sin (ae * pi / 2) * 0.9" by argo
  then have rnd: "0 < th / 2 * (1 - sin (ae * pi / 2) * 0.9)" using th by simp
  show ?thesis
  proof (cases ty)
    case None
    then show ?thesis using th by (simp add: applyEdgeAngle_simps)
  next
    case (Some a)
    have "0 < applyEdgeAngle (Some a) ca th ae"
    proof (cases a)
      case Rounded
      show ?thesis unfolding Rounded applyEdgeAngle_simps by (rule rnd)
    qed (use th in \<open>simp_all add: applyEdgeAngle_simps less_max_iff_disj\<close>)
    then show ?thesis using Some by simp
  qed
qed

lemma convex_pos:
  fixes a b w :: real
  assumes "0 < a" "0 < b" "0 \<le> w" "w \<le> 1"
  shows "0 < a * w + b * (1 - w)"
proof (cases "w = 0")
  case True
  then show ?thesis using assms by simp
next
  case False
  then have "0 < a * w" using assms by simp
  moreover have "0 \<le> b * (1 - w)" using assms by simp
  ultimately show ?thesis by linarith
qed

text \<open>
  C4. For parameters with non-negative length and width, positive thickness, edge thickness
  and edge depth (and positive per-edge thicknesses in asymmetric mode), a non-negative
  bow percentage, and every grid point \<open>(s, t)\<close> in \<open>[0,1] \<times> [0,1]\<close>, with the bow offset
  that \<open>createRibGeometry\<close> passes for row \<open>t\<close>: \<open>topZ\<close> is strictly greater than
  \<open>bottomZ\<close>. The documented ranges of the parameters satisfy these bounds.
\<close>

theorem calculateVertexPosition_topZ_above_bottomZ:
  fixes p :: params and s t x :: real and smoothedCurve :: "point list option" and ws :: nat
  assumes len: "0 \<le> length_p p" and wid: "0 \<le> width p" and th: "0 < thickness p"
    and eth: "0 < edgeThickness p" and ed: "0 < edgeDepth p" and lc: "0 \<le> longitudinalCurve p"
    and asym: "edgeThicknessApply p = ApplyAsymmetric \<Longrightarrow>
                 0 < toNumber (edgeTop p) \<and> 0 < toNumber (edgeBottom p) \<and>
                 0 < toNumber (edgeLeft p) \<and> 0 < toNumber (edgeRight p)"
    and s: "0 \<le> s" "s \<le> 1" and t: "0 \<le> t" "t \<le> 1"
  shows "bottomZ (calculateVertexPosition x s t p smoothedCurve ws (longitudinalCurveOffset p t))
       < topZ (calculateVertexPosition x s t p smoothedCurve ws (longitudinalCurveOffset p t))"
proof -
  define co where "co = longitudinalCurveOffset p t"
  define sm where "sm = (case smoothedCurve of Some curve \<Rightarrow> curveShapeModifier curve s t
                     | None \<Rightarrow> getShapeModifier t s (shape p))"
  define dT where "dT = width p * \<bar>sm\<bar> * (1 - s)"
  define dB where "dB = width p * \<bar>sm\<bar> * s"
  define dL where "dL = length_p p * t"
  define dR where "dR = length_p p * (1 - t)"
  define md where "md = min (min (min dT dB) dL) dR"
  define tgt where "tgt = (if edgeThicknessApply p = ApplyAsymmetric
             then nearestEdgeChoice (dT = md) (dB = md) (dL = md) (dR = md)
                    (toNumber (edgeTop p)) (toNumber (edgeBottom p))
                    (toNumber (edgeLeft p)) (toNumber (edgeRight p)) (edgeThickness p)
             else edgeThickness p)"
  define ct where "ct = (if md \<le> edgeDepth p then
               (if (edgeThicknessApply p = ApplyAll \<or>
                       edgeThicknessApply p = ApplyAsymmetric \<or>
                       (edgeThicknessApply p = ApplyShaping \<and> dT = md))
                   then tgt * (1 - md / edgeDepth p) + thickness p * (md / edgeDepth p)
                   else thickness p)
             else thickness p)"
  define ety where "ety = (if angleType p = Asymmetric
                             then nearestEdgeChoice (dT = md) (dB = md) (dL = md) (dR = md)
                                    (angleTop p) (angleBottom p) (angleLeft p) (angleRight p)
                                    (Some (angleType p))
                             else Some (angleType p))"
  define r where "r = calculateVertexPosition x s t p smoothedCurve ws co"
  have bz: "bottomZ r = - ct / 2 - co"
    unfolding r_def ct_def tgt_def md_def dR_def dL_def dB_def dT_def sm_def
    by (rule cvp_fields(2))
  have tz: "topZ r = (if md \<le> edgeDepth p
            then (applyEdgeAngle ety (customAngle p) ct (1 - md / edgeDepth p) + co) * (1 - md / edgeDepth p)
                          + (ct / 2 + co) * (1 - (1 - md / edgeDepth p))
            else ct / 2 + co)"
    unfolding r_def ety_def ct_def tgt_def md_def dR_def dL_def dB_def dT_def sm_def
    by (rule cvp_topZ)
  have "0 \<le> sin (t * pi)"
  proof (rule sin_ge_zero)
    show "0 \<le> t * pi" using t by simp
    have "t * pi \<le> 1 * pi" using t by (intro mult_right_mono) auto
    then show "t * pi \<le> pi" by simp
  qed
  then have co0: "0 \<le> co"
    unfolding co_def longitudinalCurveOffset_def Let_def using th lc by simp
  have d0: "0 \<le> dT" "0 \<le> dB" "0 \<le> dL" "0 \<le> dR"
    unfolding dT_def dB_def dL_def dR_def using wid len s t by simp_all
  then have md0: "0 \<le> md" unfolding md_def by simp
  have tgt0: "0 < tgt"
    unfolding tgt_def nearestEdgeChoice_def using eth asym by simp
  have ct0: "0 < ct"
  proof (cases "md \<le> edgeDepth p")
    case True
    have w: "0 \<le> md / edgeDepth p" "md / edgeDepth p \<le> 1" using True md0 ed by simp_all
    have "0 < thickness p * (md / edgeDepth p) + tgt * (1 - md / edgeDepth p)"
      using th tgt0 w by (rule convex_pos)
    then show ?thesis unfolding ct_def using True th by (simp add: add.commute)
  next
    case False
    then show ?thesis unfolding ct_def using th by simp
  qed
  have bneg: "bottomZ r < 0" unfolding bz using ct0 co0 by simp
  have tpos: "0 < topZ r"
  proof (cases "md \<le> edgeDepth p")
    case True
    define w where "w = 1 - md / edgeDepth p"
    have w: "0 \<le> w" "w \<le> 1" unfolding w_def using True md0 ed by simp_all
    have a: "0 < applyEdgeAngle ety (customAngle p) ct w + co"
      using applyEdgeAngle_pos [OF ct0, of ety "customAngle p" w] co0 by linarith
    have b: "0 < ct / 2 + co" using ct0 co0 by simp
    have "0 < (applyEdgeAngle ety (customAngle p) ct w + co) * w + (ct / 2 + co) * (1 - w)"
      using a b w by (rule convex_pos)
    then show ?thesis unfolding tz w_def using True by simp
  next
    case False
    then show ?thesis unfolding tz using ct0 co0 by simp
  qed
  show ?thesis using bneg tpos unfolding r_def co_def by linarith
qed

theorem calculateVertexPosition_topZ_above_bottomZ_witness:
  "0 \<le> length_p asymmetricParams \<and> 0 \<le> width asymmetricParams \<and> 0 < thickness asymmetricParams \<and>
   0 < edgeThickness asymmetricParams \<and> 0 < edgeDepth asymmetricParams \<and>
   0 \<le> longitudinalCurve asymmetricParams \<and> edgeThicknessApply asymmetricParams = ApplyAsymmetric \<and>
   0 < toNumber (edgeTop asymmetricParams) \<and> 0 < toNumber (edgeBottom asymmetricParams) \<and>
   0 < toNumber (edgeLeft asymmetricParams) \<and> 0 < toNumber (edgeRight asymmetricParams) \<and>
   (0::real) \<le> 1/4 \<and> (1/4::real) \<le> 1 \<and> (0::real) \<le> 1/2 \<and> (1/2::real) \<le> 1 \<and>
   bottomZ (calculateVertexPosition 0 (1/4) (1/2) asymmetricParams None widthSegments
              (longitudinalCurveOffset asymmetricParams (1/2)))
   < topZ (calculateVertexPosition 0 (1/4) (1/2) asymmetricParams None widthSegments
              (longitudinalCurveOffset asymmetricParams (1/2)))"
  using calculateVertexPosition_topZ_above_bottomZ
          [of asymmetricParams "1/4" "1/2" 0 None widthSegments]
  by (simp add: asymmetricParams_def toNumber_def)

subsection \<open>The loops of createRibGeometry in closed form\<close>

lemma length_concat_const:
  assumes "\<And>x. x \<in> set xs \<Longrightarrow> length (f x) = k"
  shows "length (concat (map f xs)) = k * length xs"
  using assms by (induction xs) simp_all

lemma length_vertexSix: "length (vertexSix p sc i j) = 6"
  by (simp add: vertexSix_def)

lemma pushVertex_step:
  "pushVertex p sc (gridX p i) (real i / real segments) (longitudinalCurveOffset p (real i / real segments))
     (vs, row) j
   = (vs @ vertexSix p sc i j, row @ [\<lparr>topV = length vs div 3, bottomV = length vs div 3 + 1\<rparr>])"
  by (simp add: pushVertex_def Let_def vertexSix_def gridVertex_def gridX_def)

lemma foldl_pushVertex:
  "foldl (pushVertex p sc (gridX p i) (real i / real segments) (longitudinalCurveOffset p (real i / real segments)))
         (vs, row) [0..<n]
   = (vs @ concat (map (vertexSix p sc i) [0..<n]),
      row @ map (\<lambda>j. \<lparr>topV = length vs div 3 + 2 * j, bottomV = length vs div 3 + 2 * j + 1\<rparr>) [0..<n])"
proof (induction n)
  case 0
  then show ?case by simp
next
  case (Suc n)
  have len: "length (concat (map (vertexSix p sc i) [0..<n])) = 6 * n"
    using length_concat_const [of "[0..<n]" "vertexSix p sc i" 6] by (simp add: length_vertexSix)
  have dv: "(length vs + 6 * n) div 3 = length vs div 3 + 2 * n" by simp
  have "foldl (pushVertex p sc (gridX p i) (real i / real segments) (longitudinalCurveOffset p (real i / real segments)))
         (vs, row) [0..<Suc n]
      = pushVertex p sc (gridX p i) (real i / real segments) (longitudinalCurveOffset p (real i / real segments))
          (vs @ concat (map (vertexSix p sc i) [0..<n]),
           row @ map (\<lambda>j. \<lparr>topV = length vs div 3 + 2 * j, bottomV = length vs div 3 + 2 * j + 1\<rparr>) [0..<n]) n"
    by (simp only: upt_Suc_append [OF le0] foldl_append foldl.simps Suc.IH)
  also have "\<dots> = (vs @ concat (map (vertexSix p sc i) [0..<Suc n]),
      row @ map (\<lambda>j. \<lparr>topV = length vs div 3 + 2 * j, bottomV = length vs div 3 + 2 * j + 1\<rparr>) [0..<Suc n])"
    unfolding pushVertex_step by (simp add: len dv)
  finally show ?case .
qed

text \<open>One row of the grid and of the vertex array.\<close>

lemma pushRow_step:
  assumes "length vs = 6 * (widthSegments + 1) * i"
  shows "pushRow p sc (vs, grid) i
       = (vs @ concat (map (vertexSix p sc i) [0..<widthSegments + 1]),
          grid @ [map (\<lambda>j. \<lparr>topV = topIndex i j, bottomV = bottomIndex i j\<rparr>) [0..<widthSegments + 1]])"
proof -
  have "length vs = 3 * (2 * (i * (widthSegments + 1)))" using assms by (simp add: algebra_simps)
  then have dv: "length vs div 3 = 2 * (i * (widthSegments + 1))" by (simp only: nonzero_mult_div_cancel_left)
  have gx: "(real i / real segments - 0.5) * length_p p = gridX p i" by (simp add: gridX_def)
  show ?thesis
    unfolding pushRow_def Let_def fst_conv snd_conv gx foldl_pushVertex
    by (simp add: dv topIndex_def bottomIndex_def algebra_simps)
qed

lemma foldl_pushRow:
  "foldl (pushRow p sc) ([], []) [0..<n]
   = (concat (map (\<lambda>i. concat (map (vertexSix p sc i) [0..<widthSegments + 1])) [0..<n]),
      map (\<lambda>i. map (\<lambda>j. \<lparr>topV = topIndex i j, bottomV = bottomIndex i j\<rparr>) [0..<widthSegments + 1]) [0..<n])"
proof (induction n)
  case 0
  then show ?case by simp
next
  case (Suc n)
  have len: "length (concat (map (\<lambda>i. concat (map (vertexSix p sc i) [0..<widthSegments + 1])) [0..<n]))
           = 6 * (widthSegments + 1) * n"
    using length_concat_const [of "[0..<n]" "\<lambda>i. concat (map (vertexSix p sc i) [0..<widthSegments + 1])" "6 * (widthSegments + 1)"]
          length_concat_const [of "[0..<widthSegments + 1]" "vertexSix p sc _" 6]
    by (simp add: length_vertexSix)
  show ?case
    by (simp only: upt_Suc_append [OF le0] foldl_append foldl.simps Suc.IH pushRow_step [OF len]
          map_append concat_append list.map concat.simps append_Nil2)
qed

lemma generateVertices_closed:
  "generateVertices p sc
   = (concat (map (\<lambda>i. concat (map (vertexSix p sc i) [0..<widthSegments + 1])) [0..<segments + 1]),
      map (\<lambda>i. map (\<lambda>j. \<lparr>topV = topIndex i j, bottomV = bottomIndex i j\<rparr>) [0..<widthSegments + 1]) [0..<segments + 1])"
  unfolding generateVertices_def by (rule foldl_pushRow)

lemma gridClosed_nth:
  assumes "i \<le> segments" "j \<le> widthSegments"
  shows "topV (gridClosed ! i ! j) = topIndex i j" "bottomV (gridClosed ! i ! j) = bottomIndex i j"
  using assms unfolding gridClosed_def by (simp_all add: nth_map [of _ "[0..<_]"] del: upt_Suc)

lemma triangles_flat:
  "triangles (concat (map (\<lambda>tri. case tri of (a, b, c) \<Rightarrow> [a, b, c]) ts) @ rest) = ts @ triangles rest"
  by (induction ts) auto

lemma surfaceFaces_closed:
  assumes "i < segments" "j < widthSegments"
  shows "surfaceFaces gridClosed i j
       = concat (map (\<lambda>tri. case tri of (a, b, c) \<Rightarrow> [a, b, c]) (surfaceTriangles i j))"
  using assms by (simp add: surfaceFaces_def surfaceTriangles_def Let_def gridClosed_nth)

lemma sideFaces_closed:
  assumes "i < segments"
  shows "sideFaces gridClosed i
       = concat (map (\<lambda>tri. case tri of (a, b, c) \<Rightarrow> [a, b, c]) (sideTriangles i))"
  using assms by (simp add: sideFaces_def sideTriangles_def Let_def gridClosed_nth)

lemma endFaces_closed:
  assumes "j < widthSegments"
  shows "endFaces gridClosed j
       = concat (map (\<lambda>tri. case tri of (a, b, c) \<Rightarrow> [a, b, c]) (endTriangles j))"
  using assms by (simp add: endFaces_def endTriangles_def Let_def gridClosed_nth)

lemma concat_flat:
  "concat (map (\<lambda>x. concat (map g (f x))) xs) = concat (map g (concat (map f xs)))"
  by (induction xs) simp_all

lemma generateIndices_closed:
  "generateIndices gridClosed
     = concat (map (\<lambda>tri. case tri of (a, b, c) \<Rightarrow> [a, b, c]) meshTriangles)"
proof -
  let ?g = "\<lambda>tri :: nat \<times> nat \<times> nat. case tri of (a, b, c) \<Rightarrow> [a, b, c]"
  have 1: "map (\<lambda>i. concat (map (surfaceFaces gridClosed i) [0..<widthSegments])) [0..<segments]
         = map (\<lambda>i. concat (map ?g (concat (map (surfaceTriangles i) [0..<widthSegments])))) [0..<segments]"
  proof (rule map_cong [OF refl])
    fix i assume "i \<in> set [0..<segments]"
    then have i: "i < segments" by simp
    have "map (surfaceFaces gridClosed i) [0..<widthSegments]
        = map (\<lambda>j. concat (map ?g (surfaceTriangles i j))) [0..<widthSegments]"
      by (rule map_cong [OF refl]) (simp add: surfaceFaces_closed [OF i])
    then show "concat (map (surfaceFaces gridClosed i) [0..<widthSegments])
        = concat (map ?g (concat (map (surfaceTriangles i) [0..<widthSegments])))"
      by (simp only: concat_flat)
  qed
  have 2: "map (sideFaces gridClosed) [0..<segments]
         = map (\<lambda>i. concat (map ?g (sideTriangles i))) [0..<segments]"
    by (rule map_cong [OF refl]) (simp add: sideFaces_closed)
  have 3: "map (endFaces gridClosed) [0..<widthSegments]
         = map (\<lambda>j. concat (map ?g (endTriangles j))) [0..<widthSegments]"
    by (rule map_cong [OF refl]) (simp add: endFaces_closed)
  show ?thesis
    unfolding generateIndices_def meshTriangles_def 1 2 3
    by (simp only: concat_flat map_append concat_append)
qed

lemma triangles_generateIndices: "triangles (generateIndices gridClosed) = meshTriangles"
  using triangles_flat [of meshTriangles "[]"] by (simp add: generateIndices_closed)

lemma volumeLoop_sum:
  "volumeLoop pos idx v = v + sum_list (map (tetraVolume pos) (triangles idx))"
  by (induction pos idx v rule: volumeLoop.induct) (simp_all add: tetraVolume_def Let_def)

lemma nth_concat_uniform:
  assumes "\<And>x. x \<in> set xs \<Longrightarrow> length (f x) = k" "i < length xs" "r < k"
  shows "concat (map f xs) ! (i * k + r) = f (xs ! i) ! r"
  using assms
proof (induction xs arbitrary: i)
  case Nil
  then show ?case by simp
next
  case (Cons x xs)
  show ?case
  proof (cases i)
    case 0
    then show ?thesis using Cons.prems by (simp add: nth_append)
  next
    case (Suc i')
    have "concat (map f (x # xs)) ! (i * k + r) = concat (map f xs) ! (i' * k + r)"
      using Cons.prems Suc by (simp add: nth_append)
    also have "\<dots> = f (xs ! i') ! r"
      using Cons.prems Suc by (intro Cons.IH) auto
    finally show ?thesis using Suc by simp
  qed
qed

lemma vertexArray_nth:
  assumes i: "i \<le> segments" and j: "j \<le> widthSegments" and q: "q < 6"
  shows "vertexArray p sc ! ((i * (widthSegments + 1) + j) * 6 + q) = vertexSix p sc i j ! q"
proof -
  let ?row = "\<lambda>i. concat (map (vertexSix p sc i) [0..<widthSegments + 1])"
  have rl: "length (?row x) = 6 * (widthSegments + 1)" for x
    using length_concat_const [of "[0..<widthSegments + 1]" "vertexSix p sc x" 6]
    by (simp add: length_vertexSix)
  have r: "j * 6 + q < 6 * (widthSegments + 1)" using j q by simp
  have "(i * (widthSegments + 1) + j) * 6 + q = i * (6 * (widthSegments + 1)) + (j * 6 + q)"
    by (simp add: algebra_simps)
  then have "vertexArray p sc ! ((i * (widthSegments + 1) + j) * 6 + q)
      = concat (map ?row [0..<segments + 1]) ! (i * (6 * (widthSegments + 1)) + (j * 6 + q))"
    by (simp only: vertexArray_def)
  also have "\<dots> = ?row ([0..<segments + 1] ! i) ! (j * 6 + q)"
    by (rule nth_concat_uniform) (use rl i r in auto)
  also have "\<dots> = ?row i ! (j * 6 + q)" using i by (simp del: upt_Suc)
  also have "\<dots> = vertexSix p sc i ([0..<widthSegments + 1] ! j) ! q"
    by (rule nth_concat_uniform) (use j q in \<open>auto simp: length_vertexSix\<close>)
  also have "\<dots> = vertexSix p sc i j ! q" using j by (simp del: upt_Suc)
  finally show ?thesis .
qed

lemma coord_top:
  assumes "i \<le> segments" "j \<le> widthSegments"
  shows "coord (vertexArray p sc) (topIndex i j)
       = (gridX p i, vy (gridVertex p sc i j), topZ (gridVertex p sc i j))"
proof -
  define b where "b = (i * (widthSegments + 1) + j) * 6"
  have e: "topIndex i j * 3 = b" "topIndex i j * 3 + 1 = b + 1" "topIndex i j * 3 + 2 = b + 2"
    by (simp_all add: topIndex_def b_def)
  have n0: "vertexArray p sc ! b = gridX p i"
    using vertexArray_nth [OF assms, of 0 p sc] by (simp add: vertexSix_def b_def)
  have n1: "vertexArray p sc ! (b + 1) = vy (gridVertex p sc i j)"
    using vertexArray_nth [OF assms, of 1 p sc] by (simp add: vertexSix_def b_def)
  have n2: "vertexArray p sc ! (b + 2) = topZ (gridVertex p sc i j)"
    using vertexArray_nth [OF assms, of 2 p sc] by (simp add: vertexSix_def b_def)
  show ?thesis unfolding coord_def e n0 n1 n2 by (rule refl)
qed

lemma coord_bottom:
  assumes "i \<le> segments" "j \<le> widthSegments"
  shows "coord (vertexArray p sc) (bottomIndex i j)
       = (gridX p i, vy (gridVertex p sc i j), bottomZ (gridVertex p sc i j))"
proof -
  define b where "b = (i * (widthSegments + 1) + j) * 6"
  have e: "bottomIndex i j * 3 = b + 3" "b + 3 + 1 = b + 4" "b + 3 + 2 = b + 5"
    by (simp_all add: bottomIndex_def b_def)
  have n0: "vertexArray p sc ! (b + 3) = gridX p i"
    using vertexArray_nth [OF assms, of 3 p sc] unfolding b_def [symmetric]
    by (simp add: vertexSix_def)
  have n1: "vertexArray p sc ! (b + 4) = vy (gridVertex p sc i j)"
    using vertexArray_nth [OF assms, of 4 p sc] unfolding b_def [symmetric]
    by (simp add: vertexSix_def)
  have n2: "vertexArray p sc ! (b + 5) = bottomZ (gridVertex p sc i j)"
    using vertexArray_nth [OF assms, of 5 p sc] unfolding b_def [symmetric]
    by (simp add: vertexSix_def)
  show ?thesis unfolding coord_def e n0 n1 n2 by (rule refl)
qed

lemma tetraVolume_coord:
  "tetraVolume pos (a, b, c) = tetra3 (coord pos a) (coord pos b) (coord pos c)"
  by (simp add: tetraVolume_def tetra3_def coord_def)

lemma smoothedCurve_total:
  "\<exists>sc. (if shape p = Custom \<and> length pts > 0
            then map_sum id Some (smoothCurvePoints pts sf)
            else Inr None) = Inr sc"
proof (cases "3 \<le> length pts")
  case True
  from smoothCurvePoints_returns [OF True, of sf] obtain out
    where "smoothCurvePoints pts sf = Inr out" by blast
  then show ?thesis by simp
next
  case False
  then have "smoothCurvePoints pts sf = Inr pts" by (simp add: smoothCurvePoints_def)
  then show ?thesis by simp
qed

lemma createRibGeometry_closed:
  "\<exists>sc. createRibGeometry p pts sf
          = Inr \<lparr>positions = vertexArray p sc, indices = generateIndices gridClosed\<rparr>"
proof -
  from smoothedCurve_total [of p pts sf] obtain sc where
    "(if shape p = Custom \<and> length pts > 0
            then map_sum id Some (smoothCurvePoints pts sf)
            else Inr None) = Inr sc" by blast
  then have "createRibGeometry p pts sf
          = Inr \<lparr>positions = vertexArray p sc, indices = generateIndices gridClosed\<rparr>"
    unfolding createRibGeometry_def
    by (simp add: generateVertices_closed vertexArray_def gridClosed_def Let_def)
  then show ?thesis ..
qed

lemma createRibGeometry_no_curve:
  assumes "shape p \<noteq> Custom"
  shows "createRibGeometry p pts sf
          = Inr \<lparr>positions = vertexArray p None, indices = generateIndices gridClosed\<rparr>"
  unfolding createRibGeometry_def using assms
  by (simp add: generateVertices_closed vertexArray_def gridClosed_def Let_def)

lemma sum_list_concat_map:
  fixes f :: "'a \<Rightarrow> real"
  shows "sum_list (map f (concat (map g xs))) = sum_list (map (\<lambda>x. sum_list (map f (g x))) xs)"
  by (induction xs) simp_all

lemma sum_list_const:
  fixes f :: "'a \<Rightarrow> real"
  assumes "\<And>x. x \<in> set xs \<Longrightarrow> f x = c"
  shows "sum_list (map f xs) = c * real (length xs)"
  using assms by (induction xs) (simp_all add: algebra_simps)

lemma volume_closed:
  "volumeCm3 \<lparr>positions = V, indices = generateIndices gridClosed\<rparr>
   = \<bar>sum_list (map (\<lambda>i. sum_list (map (\<lambda>j. sum_list (map (tetraVolume V) (surfaceTriangles i j)))
                                       [0..<widthSegments])) [0..<segments])
      + sum_list (map (\<lambda>i. sum_list (map (tetraVolume V) (sideTriangles i))) [0..<segments])
      + sum_list (map (\<lambda>j. sum_list (map (tetraVolume V) (endTriangles j))) [0..<widthSegments])\<bar> / 1000"
  unfolding volumeCm3_def
  by (simp add: volumeLoop_sum triangles_generateIndices meshTriangles_def sum_list_concat_map)

lemma uniform_vertex:
  fixes p :: params
  assumes sh: "shape p = Rectangular" and an: "angleType p = Straight"
    and ap: "edgeThicknessApply p = ApplyAll" and et: "edgeThickness p = thickness p"
    and lc: "longitudinalCurve p = 0"
  shows "vy (gridVertex p None i j) = (real j / real widthSegments - 0.5) * width p"
    and "topZ (gridVertex p None i j) = thickness p / 2"
    and "bottomZ (gridVertex p None i j) = - thickness p / 2"
proof -
  define s where "s = real j / real widthSegments"
  define t where "t = real i / real segments"
  define x where "x = (real i / real segments - 0.5) * length_p p"
  define co where "co = longitudinalCurveOffset p t"
  define sm where "sm = (case None :: point list option of Some curve \<Rightarrow> curveShapeModifier curve s t
                     | None \<Rightarrow> getShapeModifier t s (shape p))"
  define dT where "dT = width p * \<bar>sm\<bar> * (1 - s)"
  define dB where "dB = width p * \<bar>sm\<bar> * s"
  define dL where "dL = length_p p * t"
  define dR where "dR = length_p p * (1 - t)"
  define md where "md = min (min (min dT dB) dL) dR"
  define tgt where "tgt = (if edgeThicknessApply p = ApplyAsymmetric
             then nearestEdgeChoice (dT = md) (dB = md) (dL = md) (dR = md)
                    (toNumber (edgeTop p)) (toNumber (edgeBottom p))
                    (toNumber (edgeLeft p)) (toNumber (edgeRight p)) (edgeThickness p)
             else edgeThickness p)"
  define ct where "ct = (if md \<le> edgeDepth p then
               (if (edgeThicknessApply p = ApplyAll \<or>
                       edgeThicknessApply p = ApplyAsymmetric \<or>
                       (edgeThicknessApply p = ApplyShaping \<and> dT = md))
                   then tgt * (1 - md / edgeDepth p) + thickness p * (md / edgeDepth p)
                   else thickness p)
             else thickness p)"
  define ety where "ety = (if angleType p = Asymmetric
                             then nearestEdgeChoice (dT = md) (dB = md) (dL = md) (dR = md)
                                    (angleTop p) (angleBottom p) (angleLeft p) (angleRight p)
                                    (Some (angleType p))
                             else Some (angleType p))"
  define r where "r = calculateVertexPosition x s t p None widthSegments co"
  have r: "gridVertex p None i j = r"
    unfolding r_def gridVertex_def x_def s_def t_def co_def by (rule refl)
  have vy: "vy r = (s - 0.5) * width p * sm"
    unfolding r_def sm_def by (rule cvp_fields(1))
  have bz: "bottomZ r = - ct / 2 - co"
    unfolding r_def ct_def tgt_def md_def dR_def dL_def dB_def dT_def sm_def
    by (rule cvp_fields(2))
  have tz: "topZ r = (if md \<le> edgeDepth p
            then (applyEdgeAngle ety (customAngle p) ct (1 - md / edgeDepth p) + co) * (1 - md / edgeDepth p)
                          + (ct / 2 + co) * (1 - (1 - md / edgeDepth p))
            else ct / 2 + co)"
    unfolding r_def ety_def ct_def tgt_def md_def dR_def dL_def dB_def dT_def sm_def
    by (rule cvp_topZ)
  have sm1: "sm = 1" unfolding sm_def using sh by (simp add: getShapeModifier_def)
  have co0: "co = 0" unfolding co_def longitudinalCurveOffset_def using lc by simp
  have tgt: "tgt = thickness p" unfolding tgt_def using ap et by simp
  have ct: "ct = thickness p" unfolding ct_def tgt by (simp add: algebra_simps)
  have ety: "ety = Some Straight" unfolding ety_def using an by simp
  show "vy (gridVertex p None i j) = (real j / real widthSegments - 0.5) * width p"
    unfolding r vy sm1 s_def by simp
  show "bottomZ (gridVertex p None i j) = - thickness p / 2"
    unfolding r bz ct co0 by simp
  show "topZ (gridVertex p None i j) = thickness p / 2"
  proof -
    have blend: "a * w + a * (1 - w) = a" for a w :: real by (simp add: algebra_simps)
    show ?thesis
      unfolding r tz ct co0 ety applyEdgeAngle_simps
      by (simp only: add_0_right blend if_cancel)
  qed
qed

subsection \<open>Volume terms of level and vertical triangles\<close>

lemma tetra3_level:
  "tetra3 (x1, y1, z) (x2, y1, z) (x2, y2, z) = \<bar>z * (x2 - x1) * (y2 - y1)\<bar> / 6"
  "tetra3 (x1, y1, z) (x2, y2, z) (x1, y2, z) = \<bar>z * (x2 - x1) * (y2 - y1)\<bar> / 6"
  "tetra3 (x1, y1, z) (x2, y2, z) (x2, y1, z) = \<bar>z * (x2 - x1) * (y2 - y1)\<bar> / 6"
  "tetra3 (x1, y1, z) (x1, y2, z) (x2, y2, z) = \<bar>z * (x2 - x1) * (y2 - y1)\<bar> / 6"
proof -
  have 1: "x1 * (y1 * z - z * y2) + x2 * (y2 * z - z * y1) + x2 * (y1 * z - z * y1) = z * (x2 - x1) * (y2 - y1)"
    by (simp add: algebra_simps)
  have 2: "x1 * (y2 * z - z * y2) + x2 * (y2 * z - z * y1) + x1 * (y1 * z - z * y2) = z * (x2 - x1) * (y2 - y1)"
    by (simp add: algebra_simps)
  have 3: "x1 * (y2 * z - z * y1) + x2 * (y1 * z - z * y1) + x2 * (y1 * z - z * y2) = - (z * (x2 - x1) * (y2 - y1))"
    by (simp add: algebra_simps)
  have 4: "x1 * (y2 * z - z * y2) + x1 * (y2 * z - z * y1) + x2 * (y1 * z - z * y2) = - (z * (x2 - x1) * (y2 - y1))"
    by (simp add: algebra_simps)
  show "tetra3 (x1, y1, z) (x2, y1, z) (x2, y2, z) = \<bar>z * (x2 - x1) * (y2 - y1)\<bar> / 6"
    unfolding tetra3_def prod.case 1 by (rule refl)
  show "tetra3 (x1, y1, z) (x2, y2, z) (x1, y2, z) = \<bar>z * (x2 - x1) * (y2 - y1)\<bar> / 6"
    unfolding tetra3_def prod.case 2 by (rule refl)
  show "tetra3 (x1, y1, z) (x2, y2, z) (x2, y1, z) = \<bar>z * (x2 - x1) * (y2 - y1)\<bar> / 6"
    unfolding tetra3_def prod.case 3 abs_minus_cancel by (rule refl)
  show "tetra3 (x1, y1, z) (x1, y2, z) (x2, y2, z) = \<bar>z * (x2 - x1) * (y2 - y1)\<bar> / 6"
    unfolding tetra3_def prod.case 4 abs_minus_cancel by (rule refl)
qed

lemma tetra3_side:
  "tetra3 (x1, y, h) (x1, y, - h) (x2, y, - h) = \<bar>2 * h * y * (x2 - x1)\<bar> / 6"
  "tetra3 (x1, y, h) (x2, y, - h) (x2, y, h) = \<bar>2 * h * y * (x2 - x1)\<bar> / 6"
  "tetra3 (x1, y, h) (x2, y, h) (x2, y, - h) = \<bar>2 * h * y * (x2 - x1)\<bar> / 6"
  "tetra3 (x1, y, h) (x2, y, - h) (x1, y, - h) = \<bar>2 * h * y * (x2 - x1)\<bar> / 6"
  by (simp_all add: tetra3_def abs_eq_iff algebra_simps)

lemma tetra3_end:
  "tetra3 (x, y1, h) (x, y2, h) (x, y2, - h) = \<bar>2 * h * x * (y2 - y1)\<bar> / 6"
  "tetra3 (x, y1, h) (x, y2, - h) (x, y1, - h) = \<bar>2 * h * x * (y2 - y1)\<bar> / 6"
  "tetra3 (x, y1, h) (x, y1, - h) (x, y2, - h) = \<bar>2 * h * x * (y2 - y1)\<bar> / 6"
  "tetra3 (x, y1, h) (x, y2, - h) (x, y2, h) = \<bar>2 * h * x * (y2 - y1)\<bar> / 6"
  by (simp_all add: tetra3_def abs_eq_iff algebra_simps)

lemma gridX_step: "gridX p (i + 1) - gridX p i = length_p p / real segments"
  by (simp add: gridX_def segments_def field_simps)

lemma uniform_volume:
  fixes p :: params
  assumes sh: "shape p = Rectangular" and an: "angleType p = Straight"
    and ap: "edgeThicknessApply p = ApplyAll" and et: "edgeThickness p = thickness p"
    and lc: "longitudinalCurve p = 0"
    and pos: "0 \<le> length_p p" "0 \<le> width p" "0 \<le> thickness p"
  shows "volumeCm3 \<lparr>positions = vertexArray p None, indices = generateIndices gridClosed\<rparr>
       = length_p p * width p * thickness p / 1000"
proof -
  define V where "V = vertexArray p None"
  define h where "h = thickness p / 2"
  define Y where "Y = (\<lambda>j. (real j / real widthSegments - 0.5) * width p)"
  define dx where "dx = length_p p / real segments"
  define dy where "dy = width p / real widthSegments"
  have d0: "0 \<le> dx" "0 \<le> dy" "0 \<le> h"
    unfolding dx_def dy_def h_def using pos by simp_all
  have Xs: "gridX p (i + 1) - gridX p i = dx" for i unfolding dx_def by (rule gridX_step)
  have Ys: "Y (j + 1) - Y j = dy" for j
    unfolding Y_def dy_def by (simp add: widthSegments_def field_simps)
  have ct: "coord V (topIndex i j) = (gridX p i, Y j, h)" if "i \<le> segments" "j \<le> widthSegments" for i j
    unfolding V_def coord_top [OF that] uniform_vertex [OF sh an ap et lc] Y_def h_def by (rule refl)
  have cb: "coord V (bottomIndex i j) = (gridX p i, Y j, - h)" if "i \<le> segments" "j \<le> widthSegments" for i j
    unfolding V_def coord_bottom [OF that] uniform_vertex [OF sh an ap et lc] Y_def h_def by simp
  have cell: "sum_list (map (tetraVolume V) (surfaceTriangles i j)) = 4 * (h * dx * dy / 6)"
    if "i < segments" "j < widthSegments" for i j
  proof -
    have le: "i \<le> segments" "i + 1 \<le> segments" "j \<le> widthSegments" "j + 1 \<le> widthSegments"
      using that by simp_all
    have a: "\<bar>h * dx * dy\<bar> = h * dx * dy" "\<bar>- h * dx * dy\<bar> = h * dx * dy"
      using d0 by (simp_all add: abs_mult)
    show ?thesis
      unfolding surfaceTriangles_def list.map sum_list.Cons sum_list.Nil tetraVolume_coord
        ct [OF le(1) le(3)] ct [OF le(2) le(3)] ct [OF le(2) le(4)] ct [OF le(1) le(4)]
        cb [OF le(1) le(3)] cb [OF le(2) le(3)] cb [OF le(2) le(4)] cb [OF le(1) le(4)]
        tetra3_level Xs Ys a
      by simp
  qed
  have Y0: "Y 0 = - (width p / 2)" unfolding Y_def by simp
  have YW: "Y widthSegments = width p / 2" unfolding Y_def by (simp add: widthSegments_def)
  have X0: "gridX p 0 = - (length_p p / 2)" unfolding gridX_def by simp
  have XS: "gridX p segments = length_p p / 2" unfolding gridX_def by (simp add: segments_def)
  have side: "sum_list (map (tetraVolume V) (sideTriangles i)) = 4 * (h * width p * dx / 6)"
    if "i < segments" for i
  proof -
    have le: "i \<le> segments" "i + 1 \<le> segments" "0 \<le> widthSegments" "widthSegments \<le> widthSegments"
      using that by simp_all
    have a: "\<bar>2 * h * - (width p / 2) * dx\<bar> = h * width p * dx"
            "\<bar>2 * h * (width p / 2) * dx\<bar> = h * width p * dx"
      using d0 pos by (simp_all add: abs_mult)
    show ?thesis
      unfolding sideTriangles_def list.map sum_list.Cons sum_list.Nil tetraVolume_coord
        ct [OF le(1) le(3)] ct [OF le(2) le(3)] ct [OF le(2) le(4)] ct [OF le(1) le(4)]
        cb [OF le(1) le(3)] cb [OF le(2) le(3)] cb [OF le(2) le(4)] cb [OF le(1) le(4)]
        tetra3_side Xs Y0 YW a
      by simp
  qed
  have endw: "sum_list (map (tetraVolume V) (endTriangles j)) = 4 * (h * length_p p * dy / 6)"
    if "j < widthSegments" for j
  proof -
    have le: "0 \<le> segments" "segments \<le> segments" "j \<le> widthSegments" "j + 1 \<le> widthSegments"
      using that by simp_all
    have a: "\<bar>2 * h * - (length_p p / 2) * dy\<bar> = h * length_p p * dy"
            "\<bar>2 * h * (length_p p / 2) * dy\<bar> = h * length_p p * dy"
      using d0 pos by (simp_all add: abs_mult)
    show ?thesis
      unfolding endTriangles_def list.map sum_list.Cons sum_list.Nil tetraVolume_coord
        ct [OF le(1) le(3)] ct [OF le(2) le(3)] ct [OF le(2) le(4)] ct [OF le(1) le(4)]
        cb [OF le(1) le(3)] cb [OF le(2) le(3)] cb [OF le(2) le(4)] cb [OF le(1) le(4)]
        tetra3_end Ys X0 XS a
      by simp
  qed
  have s1: "sum_list (map (\<lambda>i. sum_list (map (\<lambda>j. sum_list (map (tetraVolume V) (surfaceTriangles i j)))
                                       [0..<widthSegments])) [0..<segments])
          = 4 * (h * dx * dy / 6) * real widthSegments * real segments"
  proof -
    have "sum_list (map (\<lambda>j. sum_list (map (tetraVolume V) (surfaceTriangles i j))) [0..<widthSegments])
        = 4 * (h * dx * dy / 6) * real widthSegments" if "i < segments" for i
      using sum_list_const [of "[0..<widthSegments]"
              "\<lambda>j. sum_list (map (tetraVolume V) (surfaceTriangles i j))" "4 * (h * dx * dy / 6)"]
            cell [OF that] by simp
    then show ?thesis
      using sum_list_const [of "[0..<segments]"
              "\<lambda>i. sum_list (map (\<lambda>j. sum_list (map (tetraVolume V) (surfaceTriangles i j))) [0..<widthSegments])"
              "4 * (h * dx * dy / 6) * real widthSegments"]
      by simp
  qed
  have s2: "sum_list (map (\<lambda>i. sum_list (map (tetraVolume V) (sideTriangles i))) [0..<segments])
          = 4 * (h * width p * dx / 6) * real segments"
    using sum_list_const [of "[0..<segments]" "\<lambda>i. sum_list (map (tetraVolume V) (sideTriangles i))"
            "4 * (h * width p * dx / 6)"] side by simp
  have s3: "sum_list (map (\<lambda>j. sum_list (map (tetraVolume V) (endTriangles j))) [0..<widthSegments])
          = 4 * (h * length_p p * dy / 6) * real widthSegments"
    using sum_list_const [of "[0..<widthSegments]" "\<lambda>j. sum_list (map (tetraVolume V) (endTriangles j))"
            "4 * (h * length_p p * dy / 6)"] endw by simp
  have tot: "4 * (h * dx * dy / 6) * real widthSegments * real segments
           + 4 * (h * width p * dx / 6) * real segments
           + 4 * (h * length_p p * dy / 6) * real widthSegments
           = length_p p * width p * thickness p"
    unfolding h_def dx_def dy_def by (simp add: segments_def widthSegments_def field_simps)
  have nn: "0 \<le> length_p p * width p * thickness p" using pos by simp
  show ?thesis
    unfolding volume_closed V_def [symmetric] s1 s2 s3 tot using nn by simp
qed

subsection \<open>The volume of the reference scenario\<close>

text \<open>
  C3. For the scenario parameters (length 100, width 60, thickness 6, rectangular, edge
  thickness 6 on all edges, straight profile, edge depth 10, no bow), whatever the drawn
  points and the smoothing amount (the shape is not custom, so no curve is used), the mesh
  is generated without an error and its volume statistic is exactly \<open>36\<close> cubic
  centimetres. Arithmetic is that of the reals.
\<close>

theorem scenario_volume:
  "map_sum id volumeCm3 (createRibGeometry scenarioParams customCurvePoints smoothingFactor) = Inr 36"
proof -
  have "volumeCm3 \<lparr>positions = vertexArray scenarioParams None, indices = generateIndices gridClosed\<rparr>
      = length_p scenarioParams * width scenarioParams * thickness scenarioParams / 1000"
    by (rule uniform_volume) (simp_all add: scenarioParams_def)
  then show ?thesis
    by (simp add: createRibGeometry_no_curve scenarioParams_def)
qed

subsection \<open>The directed edges of the mesh\<close>

lemma divmod_row:
  fixes i j n :: nat
  assumes "j < n"
  shows "(i * n + j) div n = i" "(i * n + j) mod n = j"
  using assms by simp_all

lemma decode_top:
  assumes "j \<le> widthSegments"
  shows "vrow (topIndex i j) = i" "vcol (topIndex i j) = j" "vside (topIndex i j) = 0"
proof -
  have j: "j < widthSegments + 1" using assms by simp
  have h: "topIndex i j div 2 = i * (widthSegments + 1) + j" by (simp add: topIndex_def)
  show "vrow (topIndex i j) = i" unfolding vrow_def h by (rule divmod_row(1) [OF j])
  show "vcol (topIndex i j) = j" unfolding vcol_def h by (rule divmod_row(2) [OF j])
  show "vside (topIndex i j) = 0" by (simp add: vside_def topIndex_def)
qed

lemma decode_bottom:
  assumes "j \<le> widthSegments"
  shows "vrow (bottomIndex i j) = i" "vcol (bottomIndex i j) = j" "vside (bottomIndex i j) = 1"
proof -
  have j: "j < widthSegments + 1" using assms by simp
  have h: "bottomIndex i j div 2 = i * (widthSegments + 1) + j" by (simp add: bottomIndex_def)
  show "vrow (bottomIndex i j) = i" unfolding vrow_def h by (rule divmod_row(1) [OF j])
  show "vcol (bottomIndex i j) = j" unfolding vcol_def h by (rule divmod_row(2) [OF j])
  show "vside (bottomIndex i j) = 1" by (simp add: vside_def bottomIndex_def)
qed

lemma owner_surface:
  assumes "i < segments" "j < widthSegments" "e \<in> set (surfaceEdges i j)"
  shows "ownerKey e = (0, i, j)"
  using assms
  by (auto simp: surfaceEdges_def surfaceTriangles_def dedges_def ownerKey_def ownerOf_def
        decode_top decode_bottom)

lemma segments_pos: "0 < segments" "0 < widthSegments"
  by (simp_all add: segments_def widthSegments_def)

lemma owner_side:
  assumes "i < segments" "e \<in> set (sideEdges i)"
  shows "ownerKey e = (1, i, 0)"
  using assms segments_pos
  by (auto simp: sideEdges_def sideTriangles_def dedges_def ownerKey_def ownerOf_def
        decode_top decode_bottom)

lemma owner_end:
  assumes "j < widthSegments" "e \<in> set (endEdges j)"
  shows "ownerKey e = (2, 0, j)"
  using assms segments_pos
  by (auto simp: endEdges_def endTriangles_def dedges_def ownerKey_def ownerOf_def
        decode_top decode_bottom)

lemma owner_keyEdges:
  assumes "k \<in> set meshKeys" "e \<in> set (keyEdges k)"
  shows "ownerKey e = k"
  using assms
  by (auto simp: meshKeys_def keyEdges_def owner_surface owner_side owner_end)

lemma distinct_concat_keyed:
  assumes "distinct ks"
    and "\<And>k. k \<in> set ks \<Longrightarrow> distinct (f k)"
    and "\<And>k e. k \<in> set ks \<Longrightarrow> e \<in> set (f k) \<Longrightarrow> key e = k"
  shows "distinct (concat (map f ks))"
  using assms
proof (induction ks)
  case Nil
  then show ?case by simp
next
  case (Cons k ks)
  have "set (f k) \<inter> set (concat (map f ks)) = {}"
  proof (rule ccontr)
    assume "set (f k) \<inter> set (concat (map f ks)) \<noteq> {}"
    then obtain e k' where e: "e \<in> set (f k)" "k' \<in> set ks" "e \<in> set (f k')" by auto
    then have "key e = k" "key e = k'" using Cons.prems(3) by auto
    then show False using e(2) Cons.prems(1) by auto
  qed
  moreover have "distinct (concat (map f ks))"
    using Cons.prems by (intro Cons.IH) auto
  ultimately show ?case using Cons.prems(2) by simp
qed

lemma distinct_meshKeys: "distinct meshKeys"
proof -
  have "distinct (concat (map (\<lambda>i. map (\<lambda>j. (0::nat, i, j)) [0..<widthSegments]) [0..<segments]))"
    by (rule distinct_concat_keyed [where key = "\<lambda>k. fst (snd k)"]) (auto simp: distinct_map inj_on_def)
  then show ?thesis
    unfolding meshKeys_def by (auto simp: distinct_map inj_on_def)
qed

lemma topIndex_eq:
  assumes "j \<le> widthSegments" "j' \<le> widthSegments"
  shows "(topIndex i j = topIndex i' j') = (i = i' \<and> j = j')"
  using decode_top(1,2) [OF assms(1), of i] decode_top(1,2) [OF assms(2), of i'] by metis

lemma bottomIndex_eq:
  assumes "j \<le> widthSegments" "j' \<le> widthSegments"
  shows "(bottomIndex i j = bottomIndex i' j') = (i = i' \<and> j = j')"
  using decode_bottom(1,2) [OF assms(1), of i] decode_bottom(1,2) [OF assms(2), of i'] by metis

lemma top_bottom_neq:
  "topIndex i j \<noteq> bottomIndex i' j'" "bottomIndex i' j' \<noteq> topIndex i j"
  unfolding topIndex_def bottomIndex_def by presburger+

lemma distinct_surfaceEdges:
  assumes "j < widthSegments"
  shows "distinct (surfaceEdges i j)"
  using assms
  by (simp add: surfaceEdges_def surfaceTriangles_def dedges_def topIndex_eq bottomIndex_eq top_bottom_neq)

lemma distinct_sideEdges: "distinct (sideEdges i)"
  using segments_pos
  by (simp add: sideEdges_def sideTriangles_def dedges_def topIndex_eq bottomIndex_eq top_bottom_neq)

lemma distinct_endEdges:
  assumes "j < widthSegments"
  shows "distinct (endEdges j)"
  using assms segments_pos
  by (simp add: endEdges_def endTriangles_def dedges_def topIndex_eq bottomIndex_eq top_bottom_neq)

lemma distinct_keyEdges:
  assumes "k \<in> set meshKeys"
  shows "distinct (keyEdges k)"
  using assms
  by (auto simp: meshKeys_def keyEdges_def distinct_surfaceEdges distinct_sideEdges distinct_endEdges)

lemma concat_map_concat:
  "concat (map f (concat xss)) = concat (map (\<lambda>xs. concat (map f xs)) xss)"
  by (induction xss) simp_all

lemma meshEdges_keyed:
  "concat (map dedges meshTriangles) = concat (map keyEdges meshKeys)"
proof -
  have k0: "keyEdges (0, i, j) = surfaceEdges i j" for i j by (simp add: keyEdges_def)
  have k1: "keyEdges (1, i, j) = sideEdges i" for i j by (simp add: keyEdges_def)
  have k2: "keyEdges (2, i, j) = endEdges j" for i j by (simp add: keyEdges_def)
  have 1: "concat (map dedges (concat (map (\<lambda>i. concat (map (surfaceTriangles i) [0..<widthSegments])) [0..<segments])))
         = concat (map keyEdges (concat (map (\<lambda>i. map (\<lambda>j. (0, i, j)) [0..<widthSegments]) [0..<segments])))"
    by (simp only: concat_map_concat map_map comp_def k0 surfaceEdges_def)
  have 2: "concat (map dedges (concat (map sideTriangles [0..<segments])))
         = concat (map keyEdges (map (\<lambda>i. (1, i, 0)) [0..<segments]))"
    by (simp only: concat_map_concat map_map comp_def k1 sideEdges_def)
  have 3: "concat (map dedges (concat (map endTriangles [0..<widthSegments])))
         = concat (map keyEdges (map (\<lambda>j. (2, 0, j)) [0..<widthSegments]))"
    by (simp only: concat_map_concat map_map comp_def k2 endEdges_def)
  show ?thesis
    unfolding meshTriangles_def meshKeys_def map_append concat_append 1 2 3 by (rule refl)
qed

lemma distinct_meshEdges: "distinct (concat (map dedges meshTriangles))"
  unfolding meshEdges_keyed
  by (rule distinct_concat_keyed [where key = ownerKey])
     (simp_all add: distinct_meshKeys distinct_keyEdges owner_keyEdges)

lemma set_meshTriangles:
  "set meshTriangles =
     (\<Union>i \<in> {0..<segments}. \<Union>j \<in> {0..<widthSegments}. set (surfaceTriangles i j)) \<union>
     (\<Union>i \<in> {0..<segments}. set (sideTriangles i)) \<union>
     (\<Union>j \<in> {0..<widthSegments}. set (endTriangles j))"
  by (simp add: meshTriangles_def Un_assoc)

lemma meshTriangles_proper:
  assumes "(u, v, w) \<in> set meshTriangles"
  shows "u \<noteq> v \<and> v \<noteq> w \<and> w \<noteq> u"
  using assms segments_pos unfolding set_meshTriangles
  by (auto simp: surfaceTriangles_def sideTriangles_def endTriangles_def
        topIndex_eq bottomIndex_eq top_bottom_neq)

lemma set_meshEdges:
  "set (concat (map dedges meshTriangles)) =
     (\<Union>i \<in> {0..<segments}. \<Union>j \<in> {0..<widthSegments}. set (surfaceEdges i j)) \<union>
     (\<Union>i \<in> {0..<segments}. set (sideEdges i)) \<union>
     (\<Union>j \<in> {0..<widthSegments}. set (endEdges j))"
  unfolding meshEdges_keyed meshKeys_def
  by (simp add: keyEdges_def Un_assoc)

lemma in_meshEdges_surface:
  assumes "i < segments" "j < widthSegments" "e \<in> set (surfaceEdges i j)"
  shows "e \<in> set (concat (map dedges meshTriangles))"
  unfolding set_meshEdges using assms by auto

lemma in_meshEdges_side:
  assumes "i < segments" "e \<in> set (sideEdges i)"
  shows "e \<in> set (concat (map dedges meshTriangles))"
  unfolding set_meshEdges using assms by auto

lemma in_meshEdges_end:
  assumes "j < widthSegments" "e \<in> set (endEdges j)"
  shows "e \<in> set (concat (map dedges meshTriangles))"
  unfolding set_meshEdges using assms by auto

lemma reversed_surface:
  assumes i: "i < segments" and j: "j < widthSegments"
    and e: "(a, b) \<in> set (surfaceEdges i j)"
  shows "(b, a) \<in> set (concat (map dedges meshTriangles))"
proof -
  let ?D = "set (concat (map dedges meshTriangles))"
  note inS = in_meshEdges_surface and inL = in_meshEdges_side and inE = in_meshEdges_end
  note set_surf = surfaceEdges_def surfaceTriangles_def dedges_def
  note set_side = sideEdges_def sideTriangles_def dedges_def
  note set_end = endEdges_def endTriangles_def dedges_def
  obtain S' W' where SW: "segments = Suc S'" "widthSegments = Suc W'"
    using segments_pos by (metis Suc_pred)
  have SW': "S' < segments" "W' < widthSegments" "Suc S' = segments" "Suc W' = widthSegments"
    using SW by simp_all
  have r1: "(topIndex (i + 1) j, topIndex i j) \<in> ?D"
  proof (cases j)
    case 0
    show ?thesis unfolding 0
      by (rule inL [of "i"]) (use i j 0 in \<open>simp_all add: set_side\<close>)
  next
    case (Suc j')
    show ?thesis unfolding Suc
      by (rule inS [of "i" "j'"]) (use i j Suc in \<open>simp_all add: set_surf\<close>)
  qed
  have r2: "(topIndex (i + 1) (j + 1), topIndex (i + 1) j) \<in> ?D"
  proof (cases "i + 1 < segments")
    case True
    show ?thesis
      by (rule inS [of "i + 1" "j"]) (use i j True in \<open>simp_all add: set_surf\<close>)
  next
    case False
    then have eq: "i + 1 = segments" using i j by simp
    show ?thesis unfolding eq
      by (rule inE [of "j"]) (use i j eq in \<open>simp_all add: set_end\<close>)
  qed
  have r3: "(topIndex i j, topIndex (i + 1) (j + 1)) \<in> ?D"
    by (rule inS [of "i" "j"]) (use i j  in \<open>simp_all add: set_surf\<close>)
  have r4: "(topIndex (i + 1) (j + 1), topIndex i j) \<in> ?D"
    by (rule inS [of "i" "j"]) (use i j  in \<open>simp_all add: set_surf\<close>)
  have r5: "(topIndex i (j + 1), topIndex (i + 1) (j + 1)) \<in> ?D"
  proof (cases "j + 1 < widthSegments")
    case True
    show ?thesis
      by (rule inS [of "i" "j + 1"]) (use i j True in \<open>simp_all add: set_surf\<close>)
  next
    case False
    then have eq: "j + 1 = widthSegments" using i j by simp
    show ?thesis unfolding eq
      by (rule inL [of "i"]) (use i j eq in \<open>simp_all add: set_side\<close>)
  qed
  have r6: "(topIndex i j, topIndex i (j + 1)) \<in> ?D"
  proof (cases i)
    case 0
    show ?thesis unfolding 0
      by (rule inE [of "j"]) (use i j 0 in \<open>simp_all add: set_end\<close>)
  next
    case (Suc i')
    show ?thesis unfolding Suc
      by (rule inS [of "i'" "j"]) (use i j Suc in \<open>simp_all add: set_surf\<close>)
  qed
  have r7: "(bottomIndex (i + 1) (j + 1), bottomIndex i j) \<in> ?D"
    by (rule inS [of "i" "j"]) (use i j  in \<open>simp_all add: set_surf\<close>)
  have r8: "(bottomIndex (i + 1) j, bottomIndex (i + 1) (j + 1)) \<in> ?D"
  proof (cases "i + 1 < segments")
    case True
    show ?thesis
      by (rule inS [of "i + 1" "j"]) (use i j True in \<open>simp_all add: set_surf\<close>)
  next
    case False
    then have eq: "i + 1 = segments" using i j by simp
    show ?thesis unfolding eq
      by (rule inE [of "j"]) (use i j eq in \<open>simp_all add: set_end\<close>)
  qed
  have r9: "(bottomIndex i j, bottomIndex (i + 1) j) \<in> ?D"
  proof (cases j)
    case 0
    show ?thesis unfolding 0
      by (rule inL [of "i"]) (use i j 0 in \<open>simp_all add: set_side\<close>)
  next
    case (Suc j')
    show ?thesis unfolding Suc
      by (rule inS [of "i" "j'"]) (use i j Suc in \<open>simp_all add: set_surf\<close>)
  qed
  have r10: "(bottomIndex i (j + 1), bottomIndex i j) \<in> ?D"
  proof (cases i)
    case 0
    show ?thesis unfolding 0
      by (rule inE [of "j"]) (use i j 0 in \<open>simp_all add: set_end\<close>)
  next
    case (Suc i')
    show ?thesis unfolding Suc
      by (rule inS [of "i'" "j"]) (use i j Suc in \<open>simp_all add: set_surf\<close>)
  qed
  have r11: "(bottomIndex (i + 1) (j + 1), bottomIndex i (j + 1)) \<in> ?D"
  proof (cases "j + 1 < widthSegments")
    case True
    show ?thesis
      by (rule inS [of "i" "j + 1"]) (use i j True in \<open>simp_all add: set_surf\<close>)
  next
    case False
    then have eq: "j + 1 = widthSegments" using i j by simp
    show ?thesis unfolding eq
      by (rule inL [of "i"]) (use i j eq in \<open>simp_all add: set_side\<close>)
  qed
  have r12: "(bottomIndex i j, bottomIndex (i + 1) (j + 1)) \<in> ?D"
    by (rule inS [of "i" "j"]) (use i j  in \<open>simp_all add: set_surf\<close>)
  have "\<forall>e \<in> set (surfaceEdges i j). (snd e, fst e) \<in> ?D"
    using r1 r2 r3 r4 r5 r6 r7 r8 r9 r10 r11 r12 by (simp add: surfaceEdges_def surfaceTriangles_def dedges_def)
  from this e show ?thesis by force
qed

lemma reversed_side:
  assumes i: "i < segments" and j: "(0::nat) < widthSegments"
    and e: "(a, b) \<in> set (sideEdges i)"
  shows "(b, a) \<in> set (concat (map dedges meshTriangles))"
proof -
  let ?D = "set (concat (map dedges meshTriangles))"
  note inS = in_meshEdges_surface and inL = in_meshEdges_side and inE = in_meshEdges_end
  note set_surf = surfaceEdges_def surfaceTriangles_def dedges_def
  note set_side = sideEdges_def sideTriangles_def dedges_def
  note set_end = endEdges_def endTriangles_def dedges_def
  obtain S' W' where SW: "segments = Suc S'" "widthSegments = Suc W'"
    using segments_pos by (metis Suc_pred)
  have SW': "S' < segments" "W' < widthSegments" "Suc S' = segments" "Suc W' = widthSegments"
    using SW by simp_all
  have r1: "(bottomIndex i 0, topIndex i 0) \<in> ?D"
  proof (cases i)
    case 0
    show ?thesis unfolding 0
      by (rule inE [of "0"]) (use i j 0 in \<open>simp_all add: set_end\<close>)
  next
    case (Suc i')
    show ?thesis unfolding Suc
      by (rule inL [of "i'"]) (use i j Suc in \<open>simp_all add: set_side\<close>)
  qed
  have r2: "(bottomIndex (i + 1) 0, bottomIndex i 0) \<in> ?D"
    by (rule inS [of "i" "0"]) (use i j  in \<open>simp_all add: set_surf\<close>)
  have r3: "(topIndex i 0, bottomIndex (i + 1) 0) \<in> ?D"
    by (rule inL [of "i"]) (use i j  in \<open>simp_all add: set_side\<close>)
  have r4: "(bottomIndex (i + 1) 0, topIndex i 0) \<in> ?D"
    by (rule inL [of "i"]) (use i j  in \<open>simp_all add: set_side\<close>)
  have r5: "(topIndex (i + 1) 0, bottomIndex (i + 1) 0) \<in> ?D"
  proof (cases "i + 1 < segments")
    case True
    show ?thesis
      by (rule inL [of "i + 1"]) (use i j True in \<open>simp_all add: set_side\<close>)
  next
    case False
    then have eq: "i + 1 = segments" using i j by simp
    show ?thesis unfolding eq
      by (rule inE [of "0"]) (use i j eq in \<open>simp_all add: set_end\<close>)
  qed
  have r6: "(topIndex i 0, topIndex (i + 1) 0) \<in> ?D"
    by (rule inS [of "i" "0"]) (use i j  in \<open>simp_all add: set_surf\<close>)
  have r7: "(topIndex (i + 1) widthSegments, topIndex i widthSegments) \<in> ?D"
    by (rule inS [of "i" "W'"]) (use i j  SW in \<open>simp_all add: set_surf\<close>)
  have r8: "(bottomIndex (i + 1) widthSegments, topIndex (i + 1) widthSegments) \<in> ?D"
  proof (cases "i + 1 < segments")
    case True
    show ?thesis
      by (rule inL [of "i + 1"]) (use i j True in \<open>simp_all add: set_side\<close>)
  next
    case False
    then have eq: "i + 1 = segments" using i j by simp
    show ?thesis unfolding eq
      by (rule inE [of "W'"]) (use i j eq SW in \<open>simp_all add: set_end\<close>)
  qed
  have r9: "(topIndex i widthSegments, bottomIndex (i + 1) widthSegments) \<in> ?D"
    by (rule inL [of "i"]) (use i j  in \<open>simp_all add: set_side\<close>)
  have r10: "(bottomIndex (i + 1) widthSegments, topIndex i widthSegments) \<in> ?D"
    by (rule inL [of "i"]) (use i j  in \<open>simp_all add: set_side\<close>)
  have r11: "(bottomIndex i widthSegments, bottomIndex (i + 1) widthSegments) \<in> ?D"
    by (rule inS [of "i" "W'"]) (use i j  SW in \<open>simp_all add: set_surf\<close>)
  have r12: "(topIndex i widthSegments, bottomIndex i widthSegments) \<in> ?D"
  proof (cases i)
    case 0
    show ?thesis unfolding 0
      by (rule inE [of "W'"]) (use i j 0 SW in \<open>simp_all add: set_end\<close>)
  next
    case (Suc i')
    show ?thesis unfolding Suc
      by (rule inL [of "i'"]) (use i j Suc in \<open>simp_all add: set_side\<close>)
  qed
  have "\<forall>e \<in> set (sideEdges i). (snd e, fst e) \<in> ?D"
    using r1 r2 r3 r4 r5 r6 r7 r8 r9 r10 r11 r12 by (simp add: sideEdges_def sideTriangles_def dedges_def)
  from this e show ?thesis by force
qed

lemma reversed_end:
  assumes j: "j < widthSegments" and i: "(0::nat) < segments"
    and e: "(a, b) \<in> set (endEdges j)"
  shows "(b, a) \<in> set (concat (map dedges meshTriangles))"
proof -
  let ?D = "set (concat (map dedges meshTriangles))"
  note inS = in_meshEdges_surface and inL = in_meshEdges_side and inE = in_meshEdges_end
  note set_surf = surfaceEdges_def surfaceTriangles_def dedges_def
  note set_side = sideEdges_def sideTriangles_def dedges_def
  note set_end = endEdges_def endTriangles_def dedges_def
  obtain S' W' where SW: "segments = Suc S'" "widthSegments = Suc W'"
    using segments_pos by (metis Suc_pred)
  have SW': "S' < segments" "W' < widthSegments" "Suc S' = segments" "Suc W' = widthSegments"
    using SW by simp_all
  have r1: "(topIndex 0 (j + 1), topIndex 0 j) \<in> ?D"
    by (rule inS [of "0" "j"]) (use i j  in \<open>simp_all add: set_surf\<close>)
  have r2: "(bottomIndex 0 (j + 1), topIndex 0 (j + 1)) \<in> ?D"
  proof (cases "j + 1 < widthSegments")
    case True
    show ?thesis
      by (rule inE [of "j + 1"]) (use i j True in \<open>simp_all add: set_end\<close>)
  next
    case False
    then have eq: "j + 1 = widthSegments" using i j by simp
    show ?thesis unfolding eq
      by (rule inL [of "0"]) (use i j eq in \<open>simp_all add: set_side\<close>)
  qed
  have r3: "(topIndex 0 j, bottomIndex 0 (j + 1)) \<in> ?D"
    by (rule inE [of "j"]) (use i j  in \<open>simp_all add: set_end\<close>)
  have r4: "(bottomIndex 0 (j + 1), topIndex 0 j) \<in> ?D"
    by (rule inE [of "j"]) (use i j  in \<open>simp_all add: set_end\<close>)
  have r5: "(bottomIndex 0 j, bottomIndex 0 (j + 1)) \<in> ?D"
    by (rule inS [of "0" "j"]) (use i j  in \<open>simp_all add: set_surf\<close>)
  have r6: "(topIndex 0 j, bottomIndex 0 j) \<in> ?D"
  proof (cases j)
    case 0
    show ?thesis unfolding 0
      by (rule inL [of "0"]) (use i j 0 in \<open>simp_all add: set_side\<close>)
  next
    case (Suc j')
    show ?thesis unfolding Suc
      by (rule inE [of "j'"]) (use i j Suc in \<open>simp_all add: set_end\<close>)
  qed
  have r7: "(bottomIndex segments j, topIndex segments j) \<in> ?D"
  proof (cases j)
    case 0
    show ?thesis unfolding 0
      by (rule inL [of "S'"]) (use i j 0 SW in \<open>simp_all add: set_side\<close>)
  next
    case (Suc j')
    show ?thesis unfolding Suc
      by (rule inE [of "j'"]) (use i j Suc in \<open>simp_all add: set_end\<close>)
  qed
  have r8: "(bottomIndex segments (j + 1), bottomIndex segments j) \<in> ?D"
    by (rule inS [of "S'" "j"]) (use i j  SW in \<open>simp_all add: set_surf\<close>)
  have r9: "(topIndex segments j, bottomIndex segments (j + 1)) \<in> ?D"
    by (rule inE [of "j"]) (use i j  in \<open>simp_all add: set_end\<close>)
  have r10: "(bottomIndex segments (j + 1), topIndex segments j) \<in> ?D"
    by (rule inE [of "j"]) (use i j  in \<open>simp_all add: set_end\<close>)
  have r11: "(topIndex segments (j + 1), bottomIndex segments (j + 1)) \<in> ?D"
  proof (cases "j + 1 < widthSegments")
    case True
    show ?thesis
      by (rule inE [of "j + 1"]) (use i j True in \<open>simp_all add: set_end\<close>)
  next
    case False
    then have eq: "j + 1 = widthSegments" using i j by simp
    show ?thesis unfolding eq
      by (rule inL [of "S'"]) (use i j eq SW in \<open>simp_all add: set_side\<close>)
  qed
  have r12: "(topIndex segments j, topIndex segments (j + 1)) \<in> ?D"
    by (rule inS [of "S'" "j"]) (use i j  SW in \<open>simp_all add: set_surf\<close>)
  have "\<forall>e \<in> set (endEdges j). (snd e, fst e) \<in> ?D"
    using r1 r2 r3 r4 r5 r6 r7 r8 r9 r10 r11 r12 by (simp add: endEdges_def endTriangles_def dedges_def)
  from this e show ?thesis by force
qed

lemma meshEdges_reversed:
  assumes "(a, b) \<in> set (concat (map dedges meshTriangles))"
  shows "(b, a) \<in> set (concat (map dedges meshTriangles))"
proof -
  from assms consider
      (surf) i j where "i < segments" "j < widthSegments" "(a, b) \<in> set (surfaceEdges i j)"
    | (side) i where "i < segments" "(a, b) \<in> set (sideEdges i)"
    | (endw) j where "j < widthSegments" "(a, b) \<in> set (endEdges j)"
    unfolding set_meshEdges by auto
  then show ?thesis
  proof cases
    case surf
    then show ?thesis by (rule reversed_surface)
  next
    case side
    then show ?thesis using segments_pos(2) by (intro reversed_side [of i])
  next
    case endw
    then show ?thesis using segments_pos(1) by (intro reversed_end [of j])
  qed
qed

lemma hasEdge_dedges:
  assumes "u \<noteq> v" "v \<noteq> w" "w \<noteq> u" "a \<noteq> b"
  shows "hasEdge a b (u, v, w) \<longleftrightarrow> (a, b) \<in> set (dedges (u, v, w)) \<or> (b, a) \<in> set (dedges (u, v, w))"
  using assms by (auto simp: hasEdge_def dedges_def)

lemma dedges_one_direction:
  assumes "u \<noteq> v" "v \<noteq> w" "w \<noteq> u"
  shows "\<not> ((a, b) \<in> set (dedges (u, v, w)) \<and> (b, a) \<in> set (dedges (u, v, w)))"
  using assms by (auto simp: dedges_def)

lemma length_filter_or:
  assumes "\<And>t. t \<in> set ts \<Longrightarrow> \<not> (P t \<and> Q t)"
  shows "length (filter (\<lambda>t. P t \<or> Q t) ts) = length (filter P ts) + length (filter Q ts)"
  using assms by (induction ts) auto

lemma one_owner:
  assumes "distinct (concat (map dedges ts))" "e \<in> set (concat (map dedges ts))"
  shows "length (filter (\<lambda>t. e \<in> set (dedges t)) ts) = 1"
  using assms
proof (induction ts)
  case Nil
  then show ?case by simp
next
  case (Cons t ts)
  show ?case
  proof (cases "e \<in> set (dedges t)")
    case True
    then have "e \<notin> set (concat (map dedges ts))" using Cons.prems(1) by auto
    then have "filter (\<lambda>t. e \<in> set (dedges t)) ts = []" by (auto simp: filter_empty_conv)
    then show ?thesis using True by simp
  next
    case False
    then have "e \<in> set (concat (map dedges ts))" using Cons.prems(2) by auto
    moreover have "distinct (concat (map dedges ts))" using Cons.prems(1) by simp
    ultimately show ?thesis using Cons.IH False by simp
  qed
qed

lemma two_triangles:
  assumes proper: "\<And>u v w. (u, v, w) \<in> set ts \<Longrightarrow> u \<noteq> v \<and> v \<noteq> w \<and> w \<noteq> u"
    and dist: "distinct (concat (map dedges ts))"
    and rev: "\<And>a b. (a, b) \<in> set (concat (map dedges ts)) \<Longrightarrow> (b, a) \<in> set (concat (map dedges ts))"
    and e: "(a, b) \<in> set (concat (map dedges ts))"
  shows "length (filter (hasEdge a b) ts) = 2"
proof -
  from e obtain t where t: "t \<in> set ts" "(a, b) \<in> set (dedges t)" by auto
  obtain u v w where uvw: "t = (u, v, w)" by (cases t) auto
  have ab: "a \<noteq> b" using proper [of u v w] t unfolding uvw by (auto simp: dedges_def)
  have eq: "filter (hasEdge a b) ts
          = filter (\<lambda>t. (a, b) \<in> set (dedges t) \<or> (b, a) \<in> set (dedges t)) ts"
  proof (rule filter_cong [OF refl])
    fix t' assume t': "t' \<in> set ts"
    obtain u' v' w' where e': "t' = (u', v', w')" by (cases t') auto
    have "u' \<noteq> v' \<and> v' \<noteq> w' \<and> w' \<noteq> u'" using proper [of u' v' w'] t' e' by simp
    then show "hasEdge a b t' = ((a, b) \<in> set (dedges t') \<or> (b, a) \<in> set (dedges t'))"
      unfolding e' using ab by (intro hasEdge_dedges) auto
  qed
  have "length (filter (\<lambda>t. (a, b) \<in> set (dedges t) \<or> (b, a) \<in> set (dedges t)) ts)
      = length (filter (\<lambda>t. (a, b) \<in> set (dedges t)) ts) + length (filter (\<lambda>t. (b, a) \<in> set (dedges t)) ts)"
  proof (rule length_filter_or)
    fix t' assume t': "t' \<in> set ts"
    obtain u' v' w' where e': "t' = (u', v', w')" by (cases t') auto
    have "u' \<noteq> v' \<and> v' \<noteq> w' \<and> w' \<noteq> u'" using proper [of u' v' w'] t' e' by simp
    then show "\<not> ((a, b) \<in> set (dedges t') \<and> (b, a) \<in> set (dedges t'))"
      unfolding e' by (intro dedges_one_direction) auto
  qed
  then show ?thesis
    unfolding eq using one_owner [OF dist e] one_owner [OF dist rev [OF e]] by simp
qed

lemma closedManifold_generateIndices: "closedManifold (generateIndices gridClosed)"
proof -
  let ?D = "set (concat (map dedges meshTriangles))"
  have two: "length (filter (hasEdge a b) meshTriangles) = 2" if "(a, b) \<in> ?D" for a b
    using meshTriangles_proper distinct_meshEdges meshEdges_reversed that
    by (rule two_triangles)
  have "u \<noteq> v \<and> v \<noteq> w \<and> w \<noteq> u \<and>
        length (filter (hasEdge u v) meshTriangles) = 2 \<and>
        length (filter (hasEdge v w) meshTriangles) = 2 \<and>
        length (filter (hasEdge w u) meshTriangles) = 2"
    if t: "(u, v, w) \<in> set meshTriangles" for u v w
  proof -
    have "(u, v) \<in> ?D" "(v, w) \<in> ?D" "(w, u) \<in> ?D"
      using t by (force simp: dedges_def)+
    then show ?thesis using two meshTriangles_proper [OF t] by simp
  qed
  then show ?thesis
    unfolding closedManifold_def edgeCount_def triangles_generateIndices list_all_iff by auto
qed

subsection \<open>The mesh is a closed 2-manifold\<close>

text \<open>
  C1. For every parameter record (valid or not), every list of drawn points and every
  smoothing amount, mesh generation returns a mesh, and its index array is a closed
  2-manifold: each triangle has three different corners and each of its edges, as an
  unordered pair of vertex indices, is shared by exactly two triangles of the array.
\<close>

theorem createRibGeometry_closedManifold:
  "\<exists>m. createRibGeometry p customCurvePoints smoothingFactor = Inr m \<and> closedManifold (indices m)"
proof -
  from createRibGeometry_closed [of p customCurvePoints smoothingFactor] obtain sc where
    "createRibGeometry p customCurvePoints smoothingFactor
       = Inr \<lparr>positions = vertexArray p sc, indices = generateIndices gridClosed\<rparr>" ..
  then show ?thesis using closedManifold_generateIndices by simp
qed

text \<open>
  An instance: in the mesh of the reference scenario the edge between vertices \<open>0\<close> and
  \<open>82\<close>, an edge of the first triangle \<open>(0, 82, 84)\<close>, is shared by exactly two triangles.
\<close>

theorem createRibGeometry_closedManifold_witness:
  "\<exists>m. createRibGeometry scenarioParams [] 50 = Inr m \<and> closedManifold (indices m) \<and>
       edgeCount (indices m) 0 82 = 2"
proof -
  from createRibGeometry_closedManifold [of scenarioParams "[]" 50] obtain m where
    m: "createRibGeometry scenarioParams [] 50 = Inr m" "closedManifold (indices m)" by blast
  have idx: "indices m = generateIndices gridClosed"
    using m(1) by (auto simp: createRibGeometry_no_curve scenarioParams_def)
  have "(topIndex 0 0, topIndex (0 + 1) 0, topIndex (0 + 1) (0 + 1)) \<in> set (surfaceTriangles 0 0)"
    by (simp add: surfaceTriangles_def)
  then have "(topIndex 0 0, topIndex (0 + 1) 0, topIndex (0 + 1) (0 + 1)) \<in> set meshTriangles"
    unfolding set_meshTriangles using segments_pos by auto
  then have "(0, 82, 84) \<in> set (triangles (indices m))"
    unfolding idx triangles_generateIndices by (simp add: topIndex_def widthSegments_def)
  then have "edgeCount (indices m) 0 82 = 2"
    using m(2) unfolding closedManifold_def list_all_iff by auto
  then show ?thesis using m by blast
qed

subsection \<open>The volume statistic is not monotone in the thickness\<close>

text \<open>The vertices of a rectangular rib with the straight profile, edge thickness on all edges, no bow.\<close>

lemma straight_vertex:
  fixes p :: params
  assumes sh: "shape p = Rectangular" and an: "angleType p = Straight"
    and ap: "edgeThicknessApply p = ApplyAll" and lc: "longitudinalCurve p = 0"
  shows "vy (gridVertex p None i j) = (real j / real widthSegments - 0.5) * width p"
    and "topZ (gridVertex p None i j) = bodyThickness p i j / 2"
    and "bottomZ (gridVertex p None i j) = - (bodyThickness p i j / 2)"
proof -
  define s where "s = real j / real widthSegments"
  define t where "t = real i / real segments"
  define x where "x = (real i / real segments - 0.5) * length_p p"
  define co where "co = longitudinalCurveOffset p t"
  define sm where "sm = (case None :: point list option of Some curve \<Rightarrow> curveShapeModifier curve s t
                     | None \<Rightarrow> getShapeModifier t s (shape p))"
  define dT where "dT = width p * \<bar>sm\<bar> * (1 - s)"
  define dB where "dB = width p * \<bar>sm\<bar> * s"
  define dL where "dL = length_p p * t"
  define dR where "dR = length_p p * (1 - t)"
  define md where "md = min (min (min dT dB) dL) dR"
  define tgt where "tgt = (if edgeThicknessApply p = ApplyAsymmetric
             then nearestEdgeChoice (dT = md) (dB = md) (dL = md) (dR = md)
                    (toNumber (edgeTop p)) (toNumber (edgeBottom p))
                    (toNumber (edgeLeft p)) (toNumber (edgeRight p)) (edgeThickness p)
             else edgeThickness p)"
  define ct where "ct = (if md \<le> edgeDepth p then
               (if (edgeThicknessApply p = ApplyAll \<or>
                       edgeThicknessApply p = ApplyAsymmetric \<or>
                       (edgeThicknessApply p = ApplyShaping \<and> dT = md))
                   then tgt * (1 - md / edgeDepth p) + thickness p * (md / edgeDepth p)
                   else thickness p)
             else thickness p)"
  define ety where "ety = (if angleType p = Asymmetric
                             then nearestEdgeChoice (dT = md) (dB = md) (dL = md) (dR = md)
                                    (angleTop p) (angleBottom p) (angleLeft p) (angleRight p)
                                    (Some (angleType p))
                             else Some (angleType p))"
  define r where "r = calculateVertexPosition x s t p None widthSegments co"
  have r: "gridVertex p None i j = r"
    unfolding r_def gridVertex_def x_def s_def t_def co_def by (rule refl)
  have vy: "vy r = (s - 0.5) * width p * sm"
    unfolding r_def sm_def by (rule cvp_fields(1))
  have bz: "bottomZ r = - ct / 2 - co"
    unfolding r_def ct_def tgt_def md_def dR_def dL_def dB_def dT_def sm_def
    by (rule cvp_fields(2))
  have tz: "topZ r = (if md \<le> edgeDepth p
            then (applyEdgeAngle ety (customAngle p) ct (1 - md / edgeDepth p) + co) * (1 - md / edgeDepth p)
                          + (ct / 2 + co) * (1 - (1 - md / edgeDepth p))
            else ct / 2 + co)"
    unfolding r_def ety_def ct_def tgt_def md_def dR_def dL_def dB_def dT_def sm_def
    by (rule cvp_topZ)
  have sm1: "sm = 1" unfolding sm_def using sh by (simp add: getShapeModifier_def)
  have co0: "co = 0" unfolding co_def longitudinalCurveOffset_def using lc by simp
  have md: "md = edgeDistance p i j"
    unfolding md_def dT_def dB_def dL_def dR_def sm1 edgeDistance_def s_def t_def by simp
  have tgt: "tgt = edgeThickness p" unfolding tgt_def using ap by simp
  have ct: "ct = bodyThickness p i j" unfolding ct_def tgt md bodyThickness_def using ap by simp
  have ety: "ety = Some Straight" unfolding ety_def using an by simp
  show "vy (gridVertex p None i j) = (real j / real widthSegments - 0.5) * width p"
    unfolding r vy sm1 s_def by simp
  show "bottomZ (gridVertex p None i j) = - (bodyThickness p i j / 2)"
    unfolding r bz ct co0 by simp
  show "topZ (gridVertex p None i j) = bodyThickness p i j / 2"
  proof -
    have blend: "a * w + a * (1 - w) = a" for a w :: real by (simp add: algebra_simps)
    show ?thesis
      unfolding r tz ct co0 ety applyEdgeAngle_simps
      by (simp only: add_0_right blend if_cancel)
  qed
qed

lemma tetra3_xslope:
  "tetra3 (x1, y1, za) (x2, y1, zb) (x2, y2, zb) = \<bar>(y2 - y1) * (x2 * za - x1 * zb)\<bar> / 6"
  "tetra3 (x1, y1, za) (x2, y2, zb) (x1, y2, za) = \<bar>(y2 - y1) * (x2 * za - x1 * zb)\<bar> / 6"
  "tetra3 (x1, y1, - za) (x2, y2, - zb) (x2, y1, - zb) = \<bar>(y2 - y1) * (x2 * za - x1 * zb)\<bar> / 6"
  "tetra3 (x1, y1, - za) (x1, y2, - za) (x2, y2, - zb) = \<bar>(y2 - y1) * (x2 * za - x1 * zb)\<bar> / 6"
  by (simp_all add: tetra3_def abs_eq_iff algebra_simps)

lemma tetra3_yslope:
  "tetra3 (x1, y1, za) (x2, y1, za) (x2, y2, zb) = \<bar>(x2 - x1) * (y2 * za - y1 * zb)\<bar> / 6"
  "tetra3 (x1, y1, za) (x2, y2, zb) (x1, y2, zb) = \<bar>(x2 - x1) * (y2 * za - y1 * zb)\<bar> / 6"
  "tetra3 (x1, y1, - za) (x2, y2, - zb) (x2, y1, - za) = \<bar>(x2 - x1) * (y2 * za - y1 * zb)\<bar> / 6"
  "tetra3 (x1, y1, - za) (x1, y2, - zb) (x2, y2, - zb) = \<bar>(x2 - x1) * (y2 * za - y1 * zb)\<bar> / 6"
  by (simp_all add: tetra3_def abs_eq_iff algebra_simps)

lemma thin_fields:
  "shape thinBodyParams = Rectangular" "angleType thinBodyParams = Straight"
  "edgeThicknessApply thinBodyParams = ApplyAll" "longitudinalCurve thinBodyParams = 0"
  "length_p thinBodyParams = 200" "width thinBodyParams = 100" "thickness thinBodyParams = 3"
  "edgeThickness thinBodyParams = 12" "edgeDepth thinBodyParams = 3"
  by (simp_all add: thinBodyParams_def)

lemma thin_edgeDistance:
  "edgeDistance thinBodyParams i j =
     min (min (min (100 - 5 * real j / 2) (5 * real j / 2)) (10 * real i / 3)) (200 - 10 * real i / 3)"
  unfolding edgeDistance_def thin_fields segments_def widthSegments_def
  by (simp add: algebra_simps)

lemma thin_boundary:
  assumes "i \<le> segments" "j \<le> widthSegments" "i = 0 \<or> i = segments \<or> j = 0 \<or> j = widthSegments"
  shows "bodyThickness thinBodyParams i j = 12"
proof -
  have b: "real i \<le> 60" "real j \<le> 40" using assms(1,2) by (simp_all add: segments_def widthSegments_def)
  have c: "real i = 0 \<or> real i = 60 \<or> real j = 0 \<or> real j = 40"
    using assms(3) by (auto simp: segments_def widthSegments_def)
  have "edgeDistance thinBodyParams i j = 0"
    unfolding thin_edgeDistance using b c by (auto simp: min_def)
  then show ?thesis unfolding bodyThickness_def thin_fields by simp
qed

lemma thin_interior:
  assumes "1 \<le> i" "i \<le> 59" "2 \<le> j" "j \<le> 38"
  shows "bodyThickness thinBodyParams i j = 3"
proof -
  have b: "1 \<le> real i" "real i \<le> 59" "2 \<le> real j" "real j \<le> 38" using assms by simp_all
  have "3 < edgeDistance thinBodyParams i j"
    unfolding thin_edgeDistance using b by (auto simp: min_def)
  then show ?thesis unfolding bodyThickness_def thin_fields by simp
qed

lemma thin_ring:
  assumes "1 \<le> i" "i \<le> 59" "j = 1 \<or> j = 39"
  shows "bodyThickness thinBodyParams i j = 9 / 2"
proof -
  have b: "1 \<le> real i" "real i \<le> 59" "real j = 1 \<or> real j = 39" using assms by auto
  have "edgeDistance thinBodyParams i j = 5 / 2"
    unfolding thin_edgeDistance using b by (auto simp: min_def)
  then show ?thesis unfolding bodyThickness_def thin_fields by simp
qed

lemma thin_coord:
  assumes "i \<le> segments" "j \<le> widthSegments"
  shows "coord (vertexArray thinBodyParams None) (topIndex i j)
           = (gridX thinBodyParams i, (real j / real widthSegments - 0.5) * 100, bodyThickness thinBodyParams i j / 2)"
    and "coord (vertexArray thinBodyParams None) (bottomIndex i j)
           = (gridX thinBodyParams i, (real j / real widthSegments - 0.5) * 100, - (bodyThickness thinBodyParams i j / 2))"
  unfolding coord_top [OF assms] coord_bottom [OF assms]
    straight_vertex [OF thin_fields(1) thin_fields(2) thin_fields(3) thin_fields(4)] thin_fields
  by (rule refl)+

lemma thin_gridX:
  "gridX thinBodyParams 0 = - 100" "gridX thinBodyParams (0 + 1) = - (290 / 3)"
  "gridX thinBodyParams 59 = 290 / 3" "gridX thinBodyParams (59 + 1) = 100"
  "gridX thinBodyParams segments = 100"
  "gridX thinBodyParams (i + 1) - gridX thinBodyParams i = 10 / 3"
  by (simp_all add: gridX_def thin_fields segments_def field_simps)

lemma thin_gridY:
  "(real (0::nat) / real widthSegments - 0.5) * 100 = - 50"
  "(real (0 + 1 :: nat) / real widthSegments - 0.5) * 100 = - (95 / 2)"
  "(real (39::nat) / real widthSegments - 0.5) * 100 = 95 / 2"
  "(real (39 + 1 :: nat) / real widthSegments - 0.5) * 100 = 50"
  "(real widthSegments / real widthSegments - 0.5) * 100 = 50"
  "(real (j + 1) / real widthSegments - 0.5) * 100 - (real j / real widthSegments - 0.5) * 100 = 5 / 2"
  by (simp_all add: widthSegments_def field_simps)

lemma thin_cell_first_row:
  assumes "2 \<le> j" "j \<le> 37"
  shows "sum_list (map (tetraVolume (vertexArray thinBodyParams None)) (surfaceTriangles 0 j)) = 4 * (1075 / 6)"
proof -
  have le: "0 \<le> segments" "0 + 1 \<le> segments" "j \<le> widthSegments" "j + 1 \<le> widthSegments"
    using assms by (simp_all add: segments_def widthSegments_def)
  have z: "bodyThickness thinBodyParams 0 j = 12" "bodyThickness thinBodyParams 0 (j + 1) = 12"
          "bodyThickness thinBodyParams (0 + 1) j = 3" "bodyThickness thinBodyParams (0 + 1) (j + 1) = 3"
    using assms le by (simp_all add: thin_boundary thin_interior)
  have a: "\<bar>5 / 2 * (- (290 / 3) * (12 / 2) - - 100 * (3 / 2))\<bar> = (1075 :: real)" by simp
  show ?thesis
    unfolding surfaceTriangles_def list.map sum_list.Cons sum_list.Nil tetraVolume_coord
      thin_coord [OF le(1) le(3)] thin_coord [OF le(2) le(3)]
      thin_coord [OF le(2) le(4)] thin_coord [OF le(1) le(4)] z
      tetra3_xslope thin_gridY(6) thin_gridX(1,2) a
    by simp
qed

lemma thin_cell_last_row:
  assumes "2 \<le> j" "j \<le> 37"
  shows "sum_list (map (tetraVolume (vertexArray thinBodyParams None)) (surfaceTriangles 59 j)) = 4 * (1075 / 6)"
proof -
  have le: "59 \<le> segments" "59 + 1 \<le> segments" "j \<le> widthSegments" "j + 1 \<le> widthSegments"
    using assms by (simp_all add: segments_def widthSegments_def)
  have z: "bodyThickness thinBodyParams 59 j = 3" "bodyThickness thinBodyParams 59 (j + 1) = 3"
          "bodyThickness thinBodyParams (59 + 1) j = 12" "bodyThickness thinBodyParams (59 + 1) (j + 1) = 12"
    using assms le by (simp_all add: thin_boundary thin_interior segments_def)
  have a: "\<bar>5 / 2 * (100 * (3 / 2) - 290 / 3 * (12 / 2))\<bar> = (1075 :: real)" by simp
  show ?thesis
    unfolding surfaceTriangles_def list.map sum_list.Cons sum_list.Nil tetraVolume_coord
      thin_coord [OF le(1) le(3)] thin_coord [OF le(2) le(3)]
      thin_coord [OF le(2) le(4)] thin_coord [OF le(1) le(4)] z
      tetra3_xslope thin_gridY(6) thin_gridX(3,4) a
    by simp
qed

lemma thin_cell_first_column:
  assumes "1 \<le> i" "i \<le> 58"
  shows "sum_list (map (tetraVolume (vertexArray thinBodyParams None)) (surfaceTriangles i 0)) = 4 * (575 / 6)"
proof -
  have le: "i \<le> segments" "i + 1 \<le> segments" "0 \<le> widthSegments" "0 + 1 \<le> widthSegments"
    using assms by (simp_all add: segments_def widthSegments_def)
  have z: "bodyThickness thinBodyParams i 0 = 12" "bodyThickness thinBodyParams (i + 1) 0 = 12"
          "bodyThickness thinBodyParams i (0 + 1) = 9 / 2" "bodyThickness thinBodyParams (i + 1) (0 + 1) = 9 / 2"
    using assms le by (simp_all add: thin_boundary thin_ring)
  have a: "\<bar>10 / 3 * (- (95 / 2) * (12 / 2) - - 50 * (9 / 2 / 2))\<bar> = (575 :: real)" by simp
  show ?thesis
    unfolding surfaceTriangles_def list.map sum_list.Cons sum_list.Nil tetraVolume_coord
      thin_coord [OF le(1) le(3)] thin_coord [OF le(2) le(3)]
      thin_coord [OF le(2) le(4)] thin_coord [OF le(1) le(4)] z
      tetra3_yslope thin_gridX(6) thin_gridY(1,2) a
    by simp
qed

lemma thin_cell_last_column:
  assumes "1 \<le> i" "i \<le> 58"
  shows "sum_list (map (tetraVolume (vertexArray thinBodyParams None)) (surfaceTriangles i 39)) = 4 * (575 / 6)"
proof -
  have le: "i \<le> segments" "i + 1 \<le> segments" "39 \<le> widthSegments" "39 + 1 \<le> widthSegments"
    using assms by (simp_all add: segments_def widthSegments_def)
  have z: "bodyThickness thinBodyParams i 39 = 9 / 2" "bodyThickness thinBodyParams (i + 1) 39 = 9 / 2"
          "bodyThickness thinBodyParams i (39 + 1) = 12" "bodyThickness thinBodyParams (i + 1) (39 + 1) = 12"
    using assms le by (simp_all add: thin_boundary thin_ring widthSegments_def)
  have a: "\<bar>10 / 3 * (50 * (9 / 2 / 2) - 95 / 2 * (12 / 2))\<bar> = (575 :: real)" by simp
  show ?thesis
    unfolding surfaceTriangles_def list.map sum_list.Cons sum_list.Nil tetraVolume_coord
      thin_coord [OF le(1) le(3)] thin_coord [OF le(2) le(3)]
      thin_coord [OF le(2) le(4)] thin_coord [OF le(1) le(4)] z
      tetra3_yslope thin_gridX(6) thin_gridY(3,4) a
    by simp
qed

lemma thin_side:
  assumes "i < segments"
  shows "sum_list (map (tetraVolume (vertexArray thinBodyParams None)) (sideTriangles i)) = 4 * (1000 / 3)"
proof -
  have le: "i \<le> segments" "i + 1 \<le> segments" "0 \<le> widthSegments" "widthSegments \<le> widthSegments"
    using assms by simp_all
  have z: "bodyThickness thinBodyParams i 0 = 12" "bodyThickness thinBodyParams (i + 1) 0 = 12"
          "bodyThickness thinBodyParams i widthSegments = 12" "bodyThickness thinBodyParams (i + 1) widthSegments = 12"
    using le by (simp_all add: thin_boundary)
  have a: "\<bar>2 * (12 / 2) * - 50 * (10 / 3)\<bar> = (2000 :: real)"
          "\<bar>2 * (12 / 2) * 50 * (10 / 3)\<bar> = (2000 :: real)" by simp_all
  show ?thesis
    unfolding sideTriangles_def list.map sum_list.Cons sum_list.Nil tetraVolume_coord
      thin_coord [OF le(1) le(3)] thin_coord [OF le(2) le(3)]
      thin_coord [OF le(2) le(4)] thin_coord [OF le(1) le(4)] z
      tetra3_side thin_gridX(6) thin_gridY(1,5) a
    by simp
qed

lemma thin_end:
  assumes "j < widthSegments"
  shows "sum_list (map (tetraVolume (vertexArray thinBodyParams None)) (endTriangles j)) = 4 * 500"
proof -
  have le: "0 \<le> segments" "segments \<le> segments" "j \<le> widthSegments" "j + 1 \<le> widthSegments"
    using assms by simp_all
  have z: "bodyThickness thinBodyParams 0 j = 12" "bodyThickness thinBodyParams 0 (j + 1) = 12"
          "bodyThickness thinBodyParams segments j = 12" "bodyThickness thinBodyParams segments (j + 1) = 12"
    using le by (simp_all add: thin_boundary)
  have a: "\<bar>2 * (12 / 2) * - 100 * (5 / 2)\<bar> = (3000 :: real)"
          "\<bar>2 * (12 / 2) * 100 * (5 / 2)\<bar> = (3000 :: real)" by simp_all
  show ?thesis
    unfolding endTriangles_def list.map sum_list.Cons sum_list.Nil tetraVolume_coord
      thin_coord [OF le(1) le(3)] thin_coord [OF le(2) le(3)]
      thin_coord [OF le(2) le(4)] thin_coord [OF le(1) le(4)] z
      tetra3_end thin_gridY(6) thin_gridX(1,5) a
    by simp
qed

lemma tetraVolume_nonneg: "0 \<le> tetraVolume pos tri"
  by (cases tri) (simp add: tetraVolume_def)

lemma sum_tetraVolume_nonneg: "0 \<le> sum_list (map (tetraVolume pos) ts)"
  by (rule sum_list_nonneg) (auto simp: tetraVolume_nonneg)

lemma sum_list_upt_split:
  fixes f :: "nat \<Rightarrow> real"
  assumes "a \<le> b" "b \<le> c"
  shows "sum_list (map f [a..<c]) = sum_list (map f [a..<b]) + sum_list (map f [b..<c])"
proof -
  have "[a..<c] = [a..<b] @ [b..<c]"
    using upt_add_eq_append [OF assms(1), of "c - b"] assms(2) by simp
  then show ?thesis by simp
qed

lemma sum_list_ge_const:
  fixes f :: "nat \<Rightarrow> real"
  assumes "\<And>x. x \<in> set xs \<Longrightarrow> c \<le> f x"
  shows "c * real (length xs) \<le> sum_list (map f xs)"
  using assms
proof (induction xs)
  case Nil
  then show ?case by simp
next
  case (Cons a xs)
  have "c \<le> f a" using Cons.prems by simp
  moreover have "c * real (length xs) \<le> sum_list (map f xs)" using Cons.prems by (intro Cons.IH) simp
  ultimately show ?case by (simp add: algebra_simps)
qed

lemma thin_rows:
  defines "V \<equiv> vertexArray thinBodyParams None"
  defines "row \<equiv> \<lambda>i. sum_list (map (\<lambda>j. sum_list (map (tetraVolume V) (surfaceTriangles i j))) [0..<widthSegments])"
  shows "25800 \<le> row 0" "25800 \<le> row 59" "1 \<le> i \<Longrightarrow> i \<le> 58 \<Longrightarrow> 2300 / 3 \<le> row i" "0 \<le> row i"
proof -
  let ?c = "\<lambda>i j. sum_list (map (tetraVolume V) (surfaceTriangles i j))"
  have nn: "0 \<le> sum_list (map (?c i) [a..<b])" for i a b
    by (rule sum_list_nonneg) (auto simp: sum_tetraVolume_nonneg)
  have split: "row i = sum_list (map (?c i) [0..<2]) + sum_list (map (?c i) [2..<38]) + sum_list (map (?c i) [38..<40])" for i
    unfolding row_def widthSegments_def
    using sum_list_upt_split [of 0 2 40 "?c i"] sum_list_upt_split [of 2 38 40 "?c i"] by simp
  have mid: "4 * (1075 / 6) * real (length [2..<38::nat]) \<le> sum_list (map (?c i) [2..<38])"
    if "i = 0 \<or> i = 59" for i
  proof (rule sum_list_ge_const)
    fix j :: nat assume "j \<in> set [2..<38]"
    then have j: "2 \<le> j" "j \<le> 37" by auto
    show "4 * (1075 / 6) \<le> ?c i j"
      using that thin_cell_first_row [OF j] thin_cell_last_row [OF j] unfolding V_def by auto
  qed
  show "25800 \<le> row 0" using mid [of 0] nn [of 0 0 2] nn [of 0 38 40] unfolding split by simp
  show "25800 \<le> row 59" using mid [of 59] nn [of 59 0 2] nn [of 59 38 40] unfolding split by simp
  show "0 \<le> row i" unfolding row_def by (rule nn)
  show "2300 / 3 \<le> row i" if i: "1 \<le> i" "i \<le> 58"
  proof -
    have split2: "row i = sum_list (map (?c i) [0..<1]) + sum_list (map (?c i) [1..<39]) + sum_list (map (?c i) [39..<40])"
      unfolding row_def widthSegments_def
      using sum_list_upt_split [of 0 1 40 "?c i"] sum_list_upt_split [of 1 39 40 "?c i"] by simp
    have "[0..<1] = [0::nat]" "[39..<40] = [39::nat]" by (simp_all add: upt_rec)
    then have e: "sum_list (map (?c i) [0..<1]) = 4 * (575 / 6)" "sum_list (map (?c i) [39..<40]) = 4 * (575 / 6)"
      using thin_cell_first_column [OF i] thin_cell_last_column [OF i] unfolding V_def by simp_all
    show ?thesis unfolding split2 e using nn [of i 1 39] by simp
  qed
qed

lemma thin_surface_sum:
  "288200 / 3 \<le> sum_list (map (\<lambda>i. sum_list (map (\<lambda>j. sum_list (map (tetraVolume (vertexArray thinBodyParams None))
                                       (surfaceTriangles i j))) [0..<widthSegments])) [0..<segments])"
proof -
  let ?row = "\<lambda>i. sum_list (map (\<lambda>j. sum_list (map (tetraVolume (vertexArray thinBodyParams None))
                                       (surfaceTriangles i j))) [0..<widthSegments])"
  have split: "sum_list (map ?row [0..<segments])
             = sum_list (map ?row [0..<1]) + sum_list (map ?row [1..<59]) + sum_list (map ?row [59..<60])"
    unfolding segments_def
    using sum_list_upt_split [of 0 1 60 ?row] sum_list_upt_split [of 1 59 60 ?row] by simp
  have "[0..<1] = [0::nat]" "[59..<60] = [59::nat]" by (simp_all add: upt_rec)
  then have e: "25800 \<le> sum_list (map ?row [0..<1])" "25800 \<le> sum_list (map ?row [59..<60])"
    using thin_rows(1,2) by simp_all
  have "2300 / 3 * real (length [1..<59::nat]) \<le> sum_list (map ?row [1..<59])"
  proof (rule sum_list_ge_const)
    fix i :: nat assume "i \<in> set [1..<59]"
    then have "1 \<le> i" "i \<le> 58" by auto
    then show "2300 / 3 \<le> ?row i" by (rule thin_rows(3))
  qed
  then show ?thesis unfolding split using e by simp
qed

lemma thin_volume:
  "256 < volumeCm3 \<lparr>positions = vertexArray thinBodyParams None, indices = generateIndices gridClosed\<rparr>"
proof -
  let ?V = "vertexArray thinBodyParams None"
  have s2: "sum_list (map (\<lambda>i. sum_list (map (tetraVolume ?V) (sideTriangles i))) [0..<segments]) = 80000"
    using sum_list_const [of "[0..<segments]" "\<lambda>i. sum_list (map (tetraVolume ?V) (sideTriangles i))" "4 * (1000 / 3)"]
          thin_side by (simp add: segments_def)
  have s3: "sum_list (map (\<lambda>j. sum_list (map (tetraVolume ?V) (endTriangles j))) [0..<widthSegments]) = 80000"
    using sum_list_const [of "[0..<widthSegments]" "\<lambda>j. sum_list (map (tetraVolume ?V) (endTriangles j))" "4 * 500"]
          thin_end by (simp add: widthSegments_def)
  show ?thesis
    unfolding volume_closed s2 s3 using thin_surface_sum by simp
qed

text \<open>
  C9. The claim is that a larger thickness, everything else fixed, gives a strictly
  larger volume statistic. On the record \<^const>\<open>thinBodyParams\<close> the code does the
  opposite: with thickness 3 the statistic is above 256 cubic centimetres, with thickness
  12 it is exactly 240. The loop adds the absolute value of every tetrahedron term, where
  its own comments announce signed volumes; near edges that are thicker than the body the
  signed terms are negative, and their absolute values grow as the body gets thinner. (At
  thickness 3 the statistic even exceeds the 200 by 100 by 12 bounding box.)
\<close>

theorem volume_falls_as_thickness_grows:
  "thickness thinBodyParams < 12 \<and>
   (\<exists>m3 m12.
      createRibGeometry thinBodyParams [] 50 = Inr m3 \<and>
      createRibGeometry (thinBodyParams\<lparr>thickness := 12\<rparr>) [] 50 = Inr m12 \<and>
      volumeCm3 m12 = 240 \<and> 256 < volumeCm3 m3 \<and> volumeCm3 m12 < volumeCm3 m3)"
proof -
  let ?p12 = "thinBodyParams\<lparr>thickness := 12\<rparr>"
  have v12: "volumeCm3 \<lparr>positions = vertexArray ?p12 None, indices = generateIndices gridClosed\<rparr>
           = length_p ?p12 * width ?p12 * thickness ?p12 / 1000"
    by (rule uniform_volume) (simp_all add: thinBodyParams_def)
  have g3: "createRibGeometry thinBodyParams [] 50
          = Inr \<lparr>positions = vertexArray thinBodyParams None, indices = generateIndices gridClosed\<rparr>"
    by (rule createRibGeometry_no_curve) (simp add: thinBodyParams_def)
  have g12: "createRibGeometry ?p12 [] 50
          = Inr \<lparr>positions = vertexArray ?p12 None, indices = generateIndices gridClosed\<rparr>"
    by (rule createRibGeometry_no_curve) (simp add: thinBodyParams_def)
  have e12: "volumeCm3 \<lparr>positions = vertexArray ?p12 None, indices = generateIndices gridClosed\<rparr> = 240"
    unfolding v12 by (simp add: thinBodyParams_def)
  show ?thesis
    using g3 g12 e12 thin_volume by (simp add: thin_fields)
qed

end
